theory Spec2Isabelle
  imports Main "HOL-Library.AList" "HOL-Library.Multiset"
begin

section \<open>Data model (InstancesPage.tsx)\<close>

text \<open>
  JavaScript numbers are modelled as mathematical integers: every number the catalogue
  stores is a count of seconds or an epoch time in milliseconds, far below \<open>2^53\<close>,
  where double arithmetic on integers is exact. \<open>NaN\<close> and fractions are not modelled.
  An optional property (\<open>lastPlayed?: number\<close>) is an \<open>option\<close>: \<open>None\<close> is the
  absent property, which reads as \<open>undefined\<close>.
  A \<open>Record<string, number>\<close> is an association list in property order; a lookup is
  \<open>map_of\<close> and the spread-with-one-key \<open>{ ...h, [k]: v }\<close> is \<open>AList.update k v h\<close>
  (the value is replaced in place when the key exists, appended otherwise).
\<close>

type_synonym number = int

record GameInstance =
  id' :: string
  name :: string
  info :: string
  bottleName :: string
  executablePath :: string
  backgroundImage :: "string option"
  lastPlayed :: "number option"
  totalPlayTime :: "number option"
  playHistory :: "(string \<times> number) list option"

text \<open>\<open>Partial<GameInstance>\<close>: every property optional.\<close>

record PartialGameInstance =
  p_id :: "string option"
  p_name :: "string option"
  p_info :: "string option"
  p_bottleName :: "string option"
  p_executablePath :: "string option"
  p_backgroundImage :: "string option"
  p_lastPlayed :: "number option"
  p_totalPlayTime :: "number option"
  p_playHistory :: "(string \<times> number) list option"

record SearchResult =
  sr_id :: string
  title :: string
  cover :: string
  source :: string
  url :: string

datatype Status = pending | matching | matched | unmatched

record BatchItem =
  item_id :: string
  selected :: bool
  dirName :: string
  executables :: "string list"
  selectedExec :: string
  item_bottleName :: string
  status :: Status
  matchedResult :: "SearchResult option"
  searchResults :: "SearchResult list"
  manualInfo :: PartialGameInstance

subsection \<open>JavaScript operators used by the handlers\<close>

text \<open>\<open>x || 0\<close> on an optional number: \<open>undefined\<close> and \<open>0\<close> both give \<open>0\<close>.\<close>

definition or0 :: "number option \<Rightarrow> number" where
  "or0 x = (case x of None \<Rightarrow> 0 | Some v \<Rightarrow> v)"

text \<open>Truthiness of an optional string: \<open>undefined\<close> and \<open>""\<close> are falsy.\<close>

definition truthy :: "string option \<Rightarrow> bool" where
  "truthy s = (case s of None \<Rightarrow> False | Some v \<Rightarrow> v \<noteq> [])"

text \<open>\<open>s || d\<close> with a string default \<open>d\<close>.\<close>

definition str_or :: "string option \<Rightarrow> string \<Rightarrow> string" where
  "str_or s d = (case s of None \<Rightarrow> d | Some v \<Rightarrow> if v = [] then d else v)"

text \<open>The object literal \<open>{}\<close> as a \<open>Partial<GameInstance>\<close>.\<close>

definition emptyPartial :: PartialGameInstance where
  "emptyPartial = \<lparr>p_id = None, p_name = None, p_info = None, p_bottleName = None,
     p_executablePath = None, p_backgroundImage = None, p_lastPlayed = None,
     p_totalPlayTime = None, p_playHistory = None\<rparr>"

text \<open>\<open>{ ...instance }\<close>: a copy of every property the instance has.\<close>

definition spread :: "GameInstance \<Rightarrow> PartialGameInstance" where
  "spread i = \<lparr>p_id = Some (id' i), p_name = Some (name i), p_info = Some (info i),
     p_bottleName = Some (bottleName i), p_executablePath = Some (executablePath i),
     p_backgroundImage = backgroundImage i, p_lastPlayed = lastPlayed i,
     p_totalPlayTime = totalPlayTime i, p_playHistory = playHistory i\<rparr>"

text \<open>\<open>{ ...i, ...formData } as GameInstance\<close>: a property of \<open>formData\<close> wins where it
  is present.\<close>

definition merge :: "GameInstance \<Rightarrow> PartialGameInstance \<Rightarrow> GameInstance" where
  "merge i f = \<lparr>
     id' = (case p_id f of None \<Rightarrow> id' i | Some v \<Rightarrow> v),
     name = (case p_name f of None \<Rightarrow> name i | Some v \<Rightarrow> v),
     info = (case p_info f of None \<Rightarrow> info i | Some v \<Rightarrow> v),
     bottleName = (case p_bottleName f of None \<Rightarrow> bottleName i | Some v \<Rightarrow> v),
     executablePath = (case p_executablePath f of None \<Rightarrow> executablePath i | Some v \<Rightarrow> v),
     backgroundImage = (case p_backgroundImage f of None \<Rightarrow> backgroundImage i | Some v \<Rightarrow> Some v),
     lastPlayed = (case p_lastPlayed f of None \<Rightarrow> lastPlayed i | Some v \<Rightarrow> Some v),
     totalPlayTime = (case p_totalPlayTime f of None \<Rightarrow> totalPlayTime i | Some v \<Rightarrow> Some v),
     playHistory = (case p_playHistory f of None \<Rightarrow> playHistory i | Some v \<Rightarrow> Some v)\<rparr>"

text \<open>\<open>Array.prototype.sort(compareFn)\<close>: ECMAScript requires a stable sort, and for a
  consistent comparator the result is the one stable sorted permutation, which insertion
  from the right computes. \<open>compareFn a b \<le> 0\<close> keeps \<open>a\<close> before \<open>b\<close>.\<close>

fun insort_cmp :: "('a \<Rightarrow> 'a \<Rightarrow> int) \<Rightarrow> 'a \<Rightarrow> 'a list \<Rightarrow> 'a list" where
  "insort_cmp cmp x [] = [x]"
| "insort_cmp cmp x (y # ys) = (if cmp x y \<le> 0 then x # y # ys else y # insort_cmp cmp x ys)"

definition array_sort :: "('a \<Rightarrow> 'a \<Rightarrow> int) \<Rightarrow> 'a list \<Rightarrow> 'a list" where
  "array_sort cmp xs = foldr (insort_cmp cmp) xs []"

text \<open>\<open>Number.prototype.toString()\<close> on a non-negative integer (\<open>Date.now().toString()\<close>).\<close>

fun toString :: "nat \<Rightarrow> string" where
  "toString n = (if n < 10 then [char_of (48 + n)]
                 else toString (n div 10) @ [char_of (48 + n mod 10)])"

declare toString.simps [simp del]

section \<open>The instance store (App.tsx)\<close>

text \<open>
  The state of \<open>AppContent\<close> and of the instances page, with the external persistence
  collaborator as the payload it last stored (\<open>disk\<close>, of a type \<open>'p\<close> the handlers never
  look into). The collaborators are parameters: \<open>lc\<close> is
  \<open>String.prototype.localeCompare\<close>, \<open>stringify\<close> and \<open>parse\<close> are \<open>JSON.stringify\<close> and
  \<open>JSON.parse\<close> (\<open>None\<close>: it throws), and each call of an \<open>invoke\<close> command carries its
  outcome. \<open>handleLaunch\<close> is the one handler that reads the catalogue before an \<open>await\<close>
  and uses what it read after it: \<open>launching\<close> holds, for every launch still pending, the
  instance it was called with and the \<open>instances\<close> it captured. Toast notifications and
  console output are not part of the state.
\<close>

datatype parsed = JSArray "GameInstance list" | NotArray

record 'p World =
  instances :: "GameInstance list"
  disk :: 'p
  selectedId :: "string option"
  isCreating :: bool
  formData :: PartialGameInstance
  launching :: "(GameInstance \<times> GameInstance list) list"

definition INITIAL_INSTANCES :: "GameInstance list" where
  "INITIAL_INSTANCES = []"

definition compareInstances :: "(string \<Rightarrow> string \<Rightarrow> int) \<Rightarrow> GameInstance \<Rightarrow> GameInstance \<Rightarrow> int" where
  "compareInstances lc a b =
     (let timeA = or0 (lastPlayed a); timeB = or0 (lastPlayed b)
      in if timeA \<noteq> timeB then timeB - timeA else lc (id' b) (id' a))"

definition sortInstances :: "(string \<Rightarrow> string \<Rightarrow> int) \<Rightarrow> GameInstance list \<Rightarrow> GameInstance list" where
  "sortInstances lc list = array_sort (compareInstances lc) list"

text \<open>\<open>read\<close> is the outcome of \<open>invoke("load_instances")\<close>: \<open>False\<close> when it rejects.
  A rejected read or a parse error is caught and leaves the state as it is.\<close>

definition loadInstancesData ::
  "(string \<Rightarrow> string \<Rightarrow> int) \<Rightarrow> ('p \<Rightarrow> parsed option) \<Rightarrow> bool \<Rightarrow> 'p World \<Rightarrow> 'p World" where
  "loadInstancesData lc parse read w =
     (if \<not> read then w
      else case parse (disk w) of
        None \<Rightarrow> w
      | Some loadedData \<Rightarrow>
          (case loadedData of
             JSArray xs \<Rightarrow> w\<lparr>instances := sortInstances lc xs\<rparr>
           | NotArray \<Rightarrow> w\<lparr>instances := INITIAL_INSTANCES\<rparr>))"

text \<open>\<open>saved\<close> is the outcome of \<open>invoke("save_instances")\<close>; a failed write is logged
  and the in-memory state is kept.\<close>

definition handleUpdateInstances ::
  "(string \<Rightarrow> string \<Rightarrow> int) \<Rightarrow> (GameInstance list \<Rightarrow> 'p) \<Rightarrow> bool \<Rightarrow>
   GameInstance list \<Rightarrow> 'p World \<Rightarrow> 'p World" where
  "handleUpdateInstances lc stringify saved newInstances w =
     (let sorted = sortInstances lc newInstances
      in w\<lparr>instances := sorted, disk := (if saved then stringify sorted else disk w)\<rparr>)"

text \<open>The callback of \<open>prevInstances.map\<close> in the \<open>game-finished\<close> listener.\<close>

definition applySession :: "string \<Rightarrow> string \<Rightarrow> number \<Rightarrow> GameInstance \<Rightarrow> GameInstance" where
  "applySession todayKey instance_id duration_sec inst =
     (if id' inst = instance_id then
        (let currentHistory = (case playHistory inst of None \<Rightarrow> [] | Some h \<Rightarrow> h);
             todayTime = or0 (map_of currentHistory todayKey) + duration_sec
         in inst\<lparr>totalPlayTime := Some (or0 (totalPlayTime inst) + duration_sec),
                  playHistory := Some (AList.update todayKey todayTime currentHistory)\<rparr>)
      else inst)"

text \<open>The \<open>game-finished\<close> listener: a functional state update on the state current when
  the event is delivered, written through without re-sorting.\<close>

definition onGameFinished ::
  "(GameInstance list \<Rightarrow> 'p) \<Rightarrow> bool \<Rightarrow> string \<Rightarrow> string \<Rightarrow> number \<Rightarrow> 'p World \<Rightarrow> 'p World" where
  "onGameFinished stringify saved todayKey instance_id duration_sec w =
     (let newInstances = map (applySession todayKey instance_id duration_sec) (instances w)
      in w\<lparr>instances := newInstances,
            disk := (if saved then stringify newInstances else disk w)\<rparr>)"

text \<open>What \<open>handleLaunch\<close> does once \<open>invoke("launch_game")\<close> has settled. \<open>response\<close> is
  the outcome: the process id, or \<open>None\<close> when it rejects; \<open>now\<close> is \<open>Date.now()\<close>;
  \<open>captured\<close> is the \<open>instances\<close> of the render in which the handler was called, and \<open>w\<close>
  the state at the moment the call settles.\<close>

definition launchSettled ::
  "(string \<Rightarrow> string \<Rightarrow> int) \<Rightarrow> (GameInstance list \<Rightarrow> 'p) \<Rightarrow> nat \<Rightarrow> nat option \<Rightarrow> bool \<Rightarrow>
   GameInstance \<Rightarrow> GameInstance list \<Rightarrow> 'p World \<Rightarrow> 'p World" where
  "launchSettled lc stringify now response saved instance captured w =
     (case response of
        None \<Rightarrow> w
      | Some pid \<Rightarrow>
          (let newInstances = map (\<lambda>i. if id' i = id' instance
                                        then i\<lparr>lastPlayed := Some (int now)\<rparr> else i) captured;
               sorted = array_sort (\<lambda>a b. or0 (lastPlayed b) - or0 (lastPlayed a)) newInstances
           in handleUpdateInstances lc stringify saved sorted w))"

text \<open>The handler when no other handler runs while the launch is pending: the captured
  list is the catalogue of the state it settles in.\<close>

definition handleLaunch ::
  "(string \<Rightarrow> string \<Rightarrow> int) \<Rightarrow> (GameInstance list \<Rightarrow> 'p) \<Rightarrow> nat \<Rightarrow> nat option \<Rightarrow> bool \<Rightarrow>
   GameInstance \<Rightarrow> 'p World \<Rightarrow> 'p World" where
  "handleLaunch lc stringify now response saved instance w =
     launchSettled lc stringify now response saved instance (instances w) w"

section \<open>The instances page (InstancesPage.tsx)\<close>

definition handleStartCreate :: "'p World \<Rightarrow> 'p World" where
  "handleStartCreate w =
     w\<lparr>selectedId := Some ''NEW'', isCreating := True,
       formData := emptyPartial\<lparr>p_name := Some [], p_info := Some [],
                                p_bottleName := Some [], p_executablePath := Some []\<rparr>\<rparr>"

definition handleStartEdit :: "GameInstance \<Rightarrow> 'p World \<Rightarrow> 'p World" where
  "handleStartEdit instance w =
     w\<lparr>selectedId := Some (id' instance), isCreating := False, formData := spread instance\<rparr>"

text \<open>The string literal of the default remark, as its UTF-8 bytes.\<close>

definition defaultInfo :: string where
  "defaultInfo = map char_of
     [232, 135, 170, 229, 174, 154, 228, 185, 137, 229, 174, 158, 228, 190, 139 :: nat]"

text \<open>\<open>formData.name!\<close>: the property, read after the guard has found it truthy.\<close>

definition str_of :: "string option \<Rightarrow> string" where
  "str_of s = (case s of None \<Rightarrow> [] | Some v \<Rightarrow> v)"

definition handleSave ::
  "(string \<Rightarrow> string \<Rightarrow> int) \<Rightarrow> (GameInstance list \<Rightarrow> 'p) \<Rightarrow> nat \<Rightarrow> bool \<Rightarrow> 'p World \<Rightarrow> 'p World" where
  "handleSave lc stringify now saved w =
     (if \<not> truthy (p_name (formData w)) \<or> \<not> truthy (p_executablePath (formData w)) then w
      else if isCreating w then
        (let newInstance = \<lparr>id' = toString now,
               name = str_of (p_name (formData w)),
               info = str_or (p_info (formData w)) defaultInfo,
               bottleName = str_or (p_bottleName (formData w)) ''Default'',
               executablePath = str_of (p_executablePath (formData w)),
               backgroundImage = None,
               lastPlayed = Some 0,
               totalPlayTime = Some 0,
               playHistory = Some []\<rparr>
         in handleUpdateInstances lc stringify saved (instances w @ [newInstance])
              (w\<lparr>selectedId := Some (id' newInstance), isCreating := False\<rparr>))
      else if truthy (selectedId w) then
        handleUpdateInstances lc stringify saved
          (map (\<lambda>i. if Some (id' i) = selectedId w then merge i (formData w) else i) (instances w)) w
      else handleUpdateInstances lc stringify saved (instances w) w)"

text \<open>\<open>deleteTarget\<close> is \<open>deleteModal.instance\<close>.\<close>

definition confirmDelete ::
  "(string \<Rightarrow> string \<Rightarrow> int) \<Rightarrow> (GameInstance list \<Rightarrow> 'p) \<Rightarrow> bool \<Rightarrow> GameInstance option \<Rightarrow>
   'p World \<Rightarrow> 'p World" where
  "confirmDelete lc stringify saved deleteTarget w =
     (case deleteTarget of
        None \<Rightarrow> w
      | Some target \<Rightarrow>
          (handleUpdateInstances lc stringify saved
             (filter (\<lambda>i. id' i \<noteq> id' target) (instances w)) w)\<lparr>selectedId := None\<rparr>)"

section \<open>Metadata search and batch import (InstancesPage.tsx)\<close>

text \<open>\<open>promise.catch(() => [])\<close>: a rejected request counts as an empty result.\<close>

definition catch :: "'a list option \<Rightarrow> 'a list" where
  "catch p = (case p of None \<Rightarrow> [] | Some r \<Rightarrow> r)"

text \<open>\<open>search_game kw src\<close> is the outcome of \<open>invoke('search_game', {keyword, source})\<close>.
  \<open>Promise.all\<close> returns the arrays in request order. The JavaScript \<open>Map\<close> keeps its
  keys in first-insertion order and \<open>set\<close> on an existing key replaces the value in place,
  which is \<open>AList.update\<close>.\<close>

definition fetchGameResults ::
  "(string \<Rightarrow> string \<Rightarrow> SearchResult list option) \<Rightarrow> string list \<Rightarrow> SearchResult list" where
  "fetchGameResults search_game keywords =
     (let promises = concat (map (\<lambda>kw. [catch (search_game kw ''touchgal''),
                                          catch (search_game kw ''kungal'')]) keywords);
          allResults = concat promises;
          uniqueMap = foldl (\<lambda>m item. AList.update (title item @ source item) item m) [] allResults
      in map snd uniqueMap)"

text \<open>\<open>updates\<close> stands for the object literal spread over the item.\<close>

definition updateBatchItem :: "string \<Rightarrow> (BatchItem \<Rightarrow> BatchItem) \<Rightarrow> BatchItem list \<Rightarrow> BatchItem list" where
  "updateBatchItem i updates prev = map (\<lambda>item. if item_id item = i then updates item else item) prev"

definition itemsToMatch :: "BatchItem list \<Rightarrow> BatchItem list" where
  "itemsToMatch batchItems =
     filter (\<lambda>i. selected i \<and> (status i = pending \<or> status i = unmatched)) batchItems"

text \<open>The first \<open>setBatchItems\<close> of \<open>handleStartBatchMatching\<close>.\<close>

definition markMatching :: "BatchItem list \<Rightarrow> BatchItem list \<Rightarrow> BatchItem list" where
  "markMatching toMatch prev =
     map (\<lambda>item. if find (\<lambda>i. item_id i = item_id item) toMatch \<noteq> None
                 then item\<lparr>status := matching\<rparr> else item) prev"

text \<open>One round of the \<open>for\<close> loop. \<open>get_directory_keywords\<close> is the outcome of the
  \<open>invoke\<close> of that name (\<open>None\<close>: it rejects, and the \<open>catch\<close> block runs).\<close>

definition matchItem ::
  "(string \<Rightarrow> string list option) \<Rightarrow> (string \<Rightarrow> string \<Rightarrow> SearchResult list option) \<Rightarrow>
   BatchItem \<Rightarrow> BatchItem list \<Rightarrow> BatchItem list" where
  "matchItem get_directory_keywords search_game item prev =
     (case get_directory_keywords (selectedExec item) of
        None \<Rightarrow> updateBatchItem (item_id item) (\<lambda>x. x\<lparr>status := unmatched, searchResults := []\<rparr>) prev
      | Some keywords \<Rightarrow>
          if length keywords = 0
          then updateBatchItem (item_id item) (\<lambda>x. x\<lparr>status := unmatched, searchResults := []\<rparr>) prev
          else (case fetchGameResults search_game keywords of
                  r0 # rs \<Rightarrow> updateBatchItem (item_id item)
                     (\<lambda>x. x\<lparr>status := matched, matchedResult := Some r0, searchResults := r0 # rs\<rparr>) prev
                | [] \<Rightarrow> updateBatchItem (item_id item)
                     (\<lambda>x. x\<lparr>status := unmatched, searchResults := []\<rparr>) prev))"

text \<open>The handler without interleaved user actions: the items are marked, then matched one
  after the other, each round updating the list the previous round left.\<close>

definition handleStartBatchMatching ::
  "(string \<Rightarrow> string list option) \<Rightarrow> (string \<Rightarrow> string \<Rightarrow> SearchResult list option) \<Rightarrow>
   BatchItem list \<Rightarrow> BatchItem list" where
  "handleStartBatchMatching get_directory_keywords search_game batchItems =
     foldl (\<lambda>prev item. matchItem get_directory_keywords search_game item prev)
       (markMatching (itemsToMatch batchItems) batchItems) (itemsToMatch batchItems)"

text \<open>The callback of \<open>toImport.map\<close>; \<open>uuid\<close> is what \<open>crypto.randomUUID()\<close> returned.\<close>

definition importItem :: "string \<Rightarrow> BatchItem \<Rightarrow> GameInstance" where
  "importItem uuid item =
     (let finalName = str_or (p_name (manualInfo item))
                        (str_or (map_option title (matchedResult item)) (dirName item));
          finalCover = (if truthy (p_backgroundImage (manualInfo item))
                        then p_backgroundImage (manualInfo item)
                        else map_option cover (matchedResult item))
      in \<lparr>id' = uuid, name = finalName, info = str_or (p_info (manualInfo item)) [],
          bottleName = item_bottleName item, executablePath = selectedExec item,
          backgroundImage = finalCover, lastPlayed = None, totalPlayTime = None,
          playHistory = None\<rparr>)"

text \<open>The argument of the one \<open>setInstances\<close> call the handler makes, or \<open>None\<close> when it
  returns before the call. \<open>randomUUID k\<close> is the result of the \<open>k\<close>-th call of
  \<open>crypto.randomUUID()\<close>.\<close>

definition handleConfirmBatchImport ::
  "(nat \<Rightarrow> string) \<Rightarrow> GameInstance list \<Rightarrow> BatchItem list \<Rightarrow> GameInstance list option" where
  "handleConfirmBatchImport randomUUID insts batchItems =
     (let toImport = filter selected batchItems
      in if length toImport = 0 then None
         else (let newInstances = map (\<lambda>(k, item). importItem (randomUUID k) item)
                                      (List.enumerate 0 toImport)
               in Some (insts @ newInstances)))"

section \<open>The application as a transition system\<close>

text \<open>One action is one stretch of a handler that runs without interruption on the single
  thread; the outcomes of the collaborators it calls travel with the action. A launch is
  two actions: the call, which captures the catalogue, and the settling of
  \<open>invoke("launch_game")\<close> for the \<open>k\<close>-th pending launch, before which any other action
  may run.\<close>

datatype Action =
    Load bool
  | StartCreate
  | StartEdit nat
  | SetName string
  | SetInfo string
  | SetBottleName string
  | SetExecutablePath string
  | SetBackgroundImage string
  | Save nat bool
  | ConfirmDelete "GameInstance option" bool
  | Launch GameInstance
  | LaunchSettled nat nat "nat option" bool
  | GameFinished string string number bool
  | ConfirmBatchImport "nat \<Rightarrow> string" "BatchItem list" bool

fun step ::
  "(string \<Rightarrow> string \<Rightarrow> int) \<Rightarrow> (GameInstance list \<Rightarrow> 'p) \<Rightarrow> ('p \<Rightarrow> parsed option) \<Rightarrow>
   Action \<Rightarrow> 'p World \<Rightarrow> 'p World" where
  "step lc stringify parse (Load read) w = loadInstancesData lc parse read w"
| "step lc stringify parse StartCreate w = handleStartCreate w"
| "step lc stringify parse (StartEdit k) w =
     (if k < length (instances w) then handleStartEdit (instances w ! k) w else w)"
| "step lc stringify parse (SetName v) w = w\<lparr>formData := (formData w)\<lparr>p_name := Some v\<rparr>\<rparr>"
| "step lc stringify parse (SetInfo v) w = w\<lparr>formData := (formData w)\<lparr>p_info := Some v\<rparr>\<rparr>"
| "step lc stringify parse (SetBottleName v) w =
     w\<lparr>formData := (formData w)\<lparr>p_bottleName := Some v\<rparr>\<rparr>"
| "step lc stringify parse (SetExecutablePath v) w =
     w\<lparr>formData := (formData w)\<lparr>p_executablePath := Some v\<rparr>\<rparr>"
| "step lc stringify parse (SetBackgroundImage v) w =
     w\<lparr>formData := (formData w)\<lparr>p_backgroundImage := Some v\<rparr>\<rparr>"
| "step lc stringify parse (Save now saved) w = handleSave lc stringify now saved w"
| "step lc stringify parse (ConfirmDelete target saved) w = confirmDelete lc stringify saved target w"
| "step lc stringify parse (Launch instance) w =
     w\<lparr>launching := launching w @ [(instance, instances w)]\<rparr>"
| "step lc stringify parse (LaunchSettled k now response saved) w =
     (if k < length (launching w)
      then launchSettled lc stringify now response saved
             (fst (launching w ! k)) (snd (launching w ! k))
             (w\<lparr>launching := take k (launching w) @ drop (Suc k) (launching w)\<rparr>)
      else w)"
| "step lc stringify parse (GameFinished todayKey instance_id duration_sec saved) w =
     onGameFinished stringify saved todayKey instance_id duration_sec w"
| "step lc stringify parse (ConfirmBatchImport randomUUID batchItems saved) w =
     (case handleConfirmBatchImport randomUUID (instances w) batchItems of
        None \<Rightarrow> w
      | Some newList \<Rightarrow> handleUpdateInstances lc stringify saved newList w)"

definition run ::
  "(string \<Rightarrow> string \<Rightarrow> int) \<Rightarrow> (GameInstance list \<Rightarrow> 'p) \<Rightarrow> ('p \<Rightarrow> parsed option) \<Rightarrow>
   Action list \<Rightarrow> 'p World \<Rightarrow> 'p World" where
  "run lc stringify parse acts w = foldl (\<lambda>s a. step lc stringify parse a s) w acts"

section \<open>The JSON collaborators\<close>

text \<open>
  \<open>JSON.stringify\<close> and \<open>JSON.parse\<close> are parameters of the handlers above. For the
  persistence round trip they are modelled here on JSON values: the payload is the JSON
  document as a value (its text is not modelled), an object is the list of its properties
  in order, with unique names, as a \<open>Record\<close> is.
\<close>

datatype json =
    JNull
  | JBool bool
  | JNumber number
  | JString string
  | JArray "json list"
  | JObject "(string \<times> json) list"

text \<open>\<open>JSON.stringify\<close> of a \<open>Record<string, number>\<close>, of one instance (an absent optional
  property is left out) and of the catalogue.\<close>

definition historyJSON :: "(string \<times> number) list \<Rightarrow> json" where
  "historyJSON h = JObject (map (\<lambda>(k, v). (k, JNumber v)) h)"

definition instanceJSON :: "GameInstance \<Rightarrow> json" where
  "instanceJSON i = JObject
     ([(''id'', JString (id' i)), (''name'', JString (name i)), (''info'', JString (info i)),
       (''bottleName'', JString (bottleName i)),
       (''executablePath'', JString (executablePath i))]
      @ (case backgroundImage i of None \<Rightarrow> [] | Some v \<Rightarrow> [(''backgroundImage'', JString v)])
      @ (case lastPlayed i of None \<Rightarrow> [] | Some v \<Rightarrow> [(''lastPlayed'', JNumber v)])
      @ (case totalPlayTime i of None \<Rightarrow> [] | Some v \<Rightarrow> [(''totalPlayTime'', JNumber v)])
      @ (case playHistory i of None \<Rightarrow> [] | Some h \<Rightarrow> [(''playHistory'', historyJSON h)]))"

definition JSON_stringify :: "GameInstance list \<Rightarrow> json" where
  "JSON_stringify xs = JArray (map instanceJSON xs)"

text \<open>Reading a parsed value at the types \<open>interface GameInstance\<close> declares. A required
  property must be there with its type; an optional one may be absent (\<open>Some None\<close>);
  \<open>None\<close> says the value is not of the declared type.\<close>

definition stringProp :: "(string \<times> json) list \<Rightarrow> string \<Rightarrow> string option" where
  "stringProp ps k = (case map_of ps k of Some (JString v) \<Rightarrow> Some v | _ \<Rightarrow> None)"

definition optString :: "(string \<times> json) list \<Rightarrow> string \<Rightarrow> string option option" where
  "optString ps k =
     (case map_of ps k of None \<Rightarrow> Some None | Some (JString v) \<Rightarrow> Some (Some v) | _ \<Rightarrow> None)"

definition optNumber :: "(string \<times> json) list \<Rightarrow> string \<Rightarrow> number option option" where
  "optNumber ps k =
     (case map_of ps k of None \<Rightarrow> Some None | Some (JNumber v) \<Rightarrow> Some (Some v) | _ \<Rightarrow> None)"

fun readHistory :: "(string \<times> json) list \<Rightarrow> (string \<times> number) list option" where
  "readHistory [] = Some []"
| "readHistory ((k, JNumber v) # ps) = map_option ((#) (k, v)) (readHistory ps)"
| "readHistory (p # ps) = None"

definition optHistory ::
  "(string \<times> json) list \<Rightarrow> string \<Rightarrow> (string \<times> number) list option option" where
  "optHistory ps k =
     (case map_of ps k of
        None \<Rightarrow> Some None
      | Some (JObject h) \<Rightarrow> map_option Some (readHistory h)
      | _ \<Rightarrow> None)"

definition readInstance :: "json \<Rightarrow> GameInstance option" where
  "readInstance j =
     (case j of
        JObject ps \<Rightarrow>
          Option.bind (stringProp ps ''id'') (\<lambda>a.
          Option.bind (stringProp ps ''name'') (\<lambda>b.
          Option.bind (stringProp ps ''info'') (\<lambda>c.
          Option.bind (stringProp ps ''bottleName'') (\<lambda>d.
          Option.bind (stringProp ps ''executablePath'') (\<lambda>e.
          Option.bind (optString ps ''backgroundImage'') (\<lambda>f.
          Option.bind (optNumber ps ''lastPlayed'') (\<lambda>g.
          Option.bind (optNumber ps ''totalPlayTime'') (\<lambda>h.
          Option.bind (optHistory ps ''playHistory'') (\<lambda>k.
            Some \<lparr>id' = a, name = b, info = c, bottleName = d, executablePath = e,
                  backgroundImage = f, lastPlayed = g, totalPlayTime = h,
                  playHistory = k\<rparr>)))))))))
      | _ \<Rightarrow> None)"

fun readInstances :: "json list \<Rightarrow> GameInstance list option" where
  "readInstances [] = Some []"
| "readInstances (j # js) =
     (case readInstance j of
        None \<Rightarrow> None
      | Some i \<Rightarrow> map_option ((#) i) (readInstances js))"

text \<open>\<open>JSON.parse\<close> followed by the view of the result as \<open>GameInstance[]\<close> that the loader
  takes after \<open>Array.isArray\<close>. An array with an element that is not an instance record
  has no value at that type; it is given the outcome \<open>None\<close>, on which the loader leaves
  the state as it is.\<close>

definition JSON_parse :: "json \<Rightarrow> parsed option" where
  "JSON_parse j = (case j of JArray js \<Rightarrow> map_option JSArray (readInstances js)
                   | _ \<Rightarrow> Some NotArray)"

section \<open>The properties of the specification, as predicates\<close>

text \<open>A comparator is consistent when it is a total preorder: the condition under which
  ECMAScript fixes the result of \<open>sort\<close>, and which \<open>localeCompare\<close> meets.\<close>

definition consistent :: "('a \<Rightarrow> 'a \<Rightarrow> int) \<Rightarrow> bool" where
  "consistent cmp \<longleftrightarrow>
     (\<forall>a b. (cmp a b < 0) = (0 < cmp b a)) \<and>
     (\<forall>a b c. cmp a b \<le> 0 \<and> cmp b c \<le> 0 \<longrightarrow> cmp a c \<le> 0)"

text \<open>The ordering rule in the specification's words: \<open>lastPlayed\<close> descending, where a
  missing \<open>lastPlayed\<close> counts as \<open>0\<close>, then \<open>id\<close> descending.\<close>

definition before :: "(string \<Rightarrow> string \<Rightarrow> int) \<Rightarrow> GameInstance \<Rightarrow> GameInstance \<Rightarrow> bool" where
  "before lc a b \<longleftrightarrow>
     or0 (lastPlayed b) < or0 (lastPlayed a) \<or>
     (or0 (lastPlayed a) = or0 (lastPlayed b) \<and> lc (id' b) (id' a) \<le> 0)"

definition ordered :: "(string \<Rightarrow> string \<Rightarrow> int) \<Rightarrow> GameInstance list \<Rightarrow> bool" where
  "ordered lc xs = sorted_wrt (before lc) xs"


definition paired :: "number option \<Rightarrow> (string \<times> number) list option \<Rightarrow> bool" where
  "paired t h = (case (t, h) of
       (None, None) \<Rightarrow> True
     | (Some v, Some al) \<Rightarrow> v = sum_list (map snd al)
     | _ \<Rightarrow> False)"

definition allPaired :: "GameInstance list \<Rightarrow> bool" where
  "allPaired xs \<longleftrightarrow> (\<forall>i \<in> set xs. paired (totalPlayTime i) (playHistory i))"




text \<open>The seconds recorded for one day key, \<open>None\<close> when the instance has no entry.\<close>

definition historyAt :: "GameInstance \<Rightarrow> string \<Rightarrow> number option" where
  "historyAt i key = (case playHistory i of None \<Rightarrow> None | Some h \<Rightarrow> map_of h key)"

text \<open>The commit rule with \<open>??\<close> as the specification writes it: only an absent value
  falls through to the next candidate.\<close>

definition nullish :: "'a option \<Rightarrow> 'a \<Rightarrow> 'a" where
  "nullish s d = (case s of None \<Rightarrow> d | Some v \<Rightarrow> v)"

definition spec_finalName :: "BatchItem \<Rightarrow> string" where
  "spec_finalName item =
     nullish (p_name (manualInfo item)) (nullish (map_option title (matchedResult item)) (dirName item))"

text \<open>Deduplication by an arbitrary key, last write wins, first-seen order; with the pair
  \<open>(title, source)\<close> as the key it is the aggregation the specification describes.\<close>

definition dedupBy :: "('a \<Rightarrow> 'k) \<Rightarrow> 'a list \<Rightarrow> 'a list" where
  "dedupBy key xs = map snd (foldl (\<lambda>m item. AList.update (key item) item m) [] xs)"

definition spec_dedup :: "SearchResult list \<Rightarrow> SearchResult list" where
  "spec_dedup xs = dedupBy (\<lambda>r. (title r, source r)) xs"

text \<open>The requests of one aggregation, in request order.\<close>

definition allResults ::
  "(string \<Rightarrow> string \<Rightarrow> SearchResult list option) \<Rightarrow> string list \<Rightarrow> SearchResult list" where
  "allResults search_game keywords =
     concat (concat (map (\<lambda>kw. [catch (search_game kw ''touchgal''),
                                 catch (search_game kw ''kungal'')]) keywords))"

text \<open>The update one matching round makes to the item it is about, by cases of what the
  collaborators returned for the executable path \<open>exec\<close>.\<close>

definition applyOutcome ::
  "(string \<Rightarrow> string list option) \<Rightarrow> (string \<Rightarrow> string \<Rightarrow> SearchResult list option) \<Rightarrow>
   string \<Rightarrow> BatchItem \<Rightarrow> BatchItem" where
  "applyOutcome get_directory_keywords search_game exec x =
     (case get_directory_keywords exec of
        None \<Rightarrow> x\<lparr>status := unmatched, searchResults := []\<rparr>
      | Some keywords \<Rightarrow>
          (case fetchGameResults search_game keywords of
             [] \<Rightarrow> x\<lparr>status := unmatched, searchResults := []\<rparr>
           | r0 # rs \<Rightarrow> x\<lparr>status := matched, matchedResult := Some r0, searchResults := r0 # rs\<rparr>))"

text \<open>The items a matching run works on.\<close>

definition eligible :: "BatchItem \<Rightarrow> bool" where
  "eligible i \<longleftrightarrow> selected i \<and> (status i = pending \<or> status i = unmatched)"

section \<open>Concrete data for the instantiations\<close>

text \<open>A consistent comparator on strings: code units, lexicographically.\<close>

fun codeUnitCompare :: "string \<Rightarrow> string \<Rightarrow> int" where
  "codeUnitCompare [] [] = 0"
| "codeUnitCompare [] (y # ys) = - 1"
| "codeUnitCompare (x # xs) [] = 1"
| "codeUnitCompare (x # xs) (y # ys) =
     (if (of_char x :: nat) < of_char y then - 1
      else if (of_char y :: nat) < of_char x then 1
      else codeUnitCompare xs ys)"

definition instA :: GameInstance where
  "instA = \<lparr>id' = ''1700000000001'', name = ''Alpha'', info = ''v1'', bottleName = ''Default'',
     executablePath = ''C:/a/start.exe'', backgroundImage = None, lastPlayed = None,
     totalPlayTime = Some 0, playHistory = Some []\<rparr>"

definition instB :: GameInstance where
  "instB = \<lparr>id' = ''1700000000002'', name = ''Beta'', info = ''v2'', bottleName = ''Default'',
     executablePath = ''C:/b/start.exe'', backgroundImage = None, lastPlayed = Some 1700000500000,
     totalPlayTime = Some 100, playHistory = Some [(''2024-01-01'', 100)]\<rparr>"


definition instC :: GameInstance where
  "instC = \<lparr>id' = ''1700000000003'', name = ''Gamma'', info = ''v3'', bottleName = ''Default'',
     executablePath = ''C:/c/start.exe'', backgroundImage = Some ''C:/c/bg.png'',
     lastPlayed = Some 0, totalPlayTime = None, playHistory = None\<rparr>"

text \<open>The state of a process that has just started over a persisted payload.\<close>

definition restarted :: "'p \<Rightarrow> 'p World" where
  "restarted d = \<lparr>instances = [], disk = d, selectedId = None, isCreating = False,
     formData = emptyPartial, launching = []\<rparr>"

definition world0 :: "string World" where
  "world0 = \<lparr>instances = [], disk = [], selectedId = None, isCreating = False,
     formData = emptyPartial, launching = []\<rparr>"

text \<open>A stand-in for the JSON collaborators on string payloads, for runs in which only
  the in-memory state is looked at.\<close>

definition demoStringify :: "GameInstance list \<Rightarrow> string" where
  "demoStringify xs = (if xs = [instB, instA] then ''[B,A]'' else ''{}'')"

definition demoParse :: "string \<Rightarrow> parsed option" where
  "demoParse s = (if s = ''[B,A]'' then Some (JSArray [instB, instA])
                  else if s = ''{}'' then Some NotArray else None)"

text \<open>A search collaborator whose second provider rejects the first keyword.\<close>

definition resTouch :: SearchResult where
  "resTouch = \<lparr>sr_id = ''t1'', title = ''CLANNAD'', cover = ''https://t/1.jpg'',
     source = ''touchgal'', url = ''https://t/1''\<rparr>"

definition resKun :: SearchResult where
  "resKun = \<lparr>sr_id = ''k7'', title = ''CLANNAD'', cover = ''https://k/7.jpg'',
     source = ''kungal'', url = ''https://k/7''\<rparr>"

definition demoSearch :: "string \<Rightarrow> string \<Rightarrow> SearchResult list option" where
  "demoSearch kw src =
     (if src = ''touchgal'' then Some [resTouch]
      else if kw = ''clannad'' then None else Some [resKun])"

text \<open>The provider identifiers that can stand in the \<open>source\<close> of a result: the ones the
  requests name, and the capitalised ones the search dialog tests for.\<close>

definition providerTags :: "string set" where
  "providerTags = {''touchgal'', ''kungal'', ''TouchGal'', ''KunGal''}"

text \<open>No tag ends with another tag: then a title followed by a tag determines both.\<close>

definition suffixFree :: "string set \<Rightarrow> bool" where
  "suffixFree tags \<longleftrightarrow> (\<forall>s \<in> tags. \<forall>t \<in> tags. \<forall>p. s = p @ t \<longrightarrow> p = [])"

text \<open>Scanned directories: the first matched, the second deselected, the third left
  unmatched, the fourth still pending; and an item whose name override was typed and
  cleared again.\<close>

definition item1 :: BatchItem where
  "item1 = \<lparr>item_id = ''b1'', selected = True, dirName = ''clannad_full'',
     executables = [''D:/g/clannad/RealLive.exe''], selectedExec = ''D:/g/clannad/RealLive.exe'',
     item_bottleName = ''Default'', status = matched, matchedResult = Some resTouch,
     searchResults = [resTouch, resKun], manualInfo = emptyPartial\<rparr>"

definition item2 :: BatchItem where
  "item2 = \<lparr>item_id = ''b2'', selected = False, dirName = ''tools'',
     executables = [''D:/g/tools/setup.exe''], selectedExec = ''D:/g/tools/setup.exe'',
     item_bottleName = ''Default'', status = pending, matchedResult = None,
     searchResults = [], manualInfo = emptyPartial\<rparr>"

definition item3 :: BatchItem where
  "item3 = \<lparr>item_id = ''b3'', selected = True, dirName = ''unknown_game'',
     executables = [''D:/g/unknown/game.exe''], selectedExec = ''D:/g/unknown/game.exe'',
     item_bottleName = ''Steam'', status = unmatched, matchedResult = None,
     searchResults = [], manualInfo = emptyPartial\<rparr>"

definition item4 :: BatchItem where
  "item4 = item1\<lparr>item_id := ''b4'', status := pending, matchedResult := None,
     searchResults := []\<rparr>"

definition itemCleared :: BatchItem where
  "itemCleared = item1\<lparr>manualInfo := emptyPartial\<lparr>p_name := Some []\<rparr>\<rparr>"

definition demoUUID :: "nat \<Rightarrow> string" where
  "demoUUID k = ''uuid-'' @ toString k"

text \<open>Keyword extraction that finds keywords for the first executable only, and rejects
  the path of the third.\<close>

definition demoKeywords :: "string \<Rightarrow> string list option" where
  "demoKeywords path = (if path = ''D:/g/clannad/RealLive.exe'' then Some [''clannad'', ''key'']
                        else if path = ''D:/g/unknown/game.exe'' then None else Some [])"

section \<open>Sorting\<close>

lemma mset_insort_cmp: "mset (insort_cmp cmp x xs) = add_mset x (mset xs)"
  by (induction xs) auto

lemma mset_array_sort: "mset (array_sort cmp xs) = mset xs"
  by (induction xs) (auto simp: array_sort_def mset_insort_cmp)

lemma set_insort_cmp: "set (insort_cmp cmp x xs) = insert x (set xs)"
  by (induction xs) auto

lemma set_array_sort: "set (array_sort cmp xs) = set xs"
  by (induction xs) (auto simp: array_sort_def set_insort_cmp)

lemma length_array_sort: "length (array_sort cmp xs) = length xs"
  by (metis mset_array_sort size_mset)

lemma consistent_total: "consistent cmp \<Longrightarrow> \<not> cmp a b \<le> 0 \<Longrightarrow> cmp b a \<le> 0"
  unfolding consistent_def by (metis linorder_not_le order_less_imp_le)

lemma consistent_trans: "consistent cmp \<Longrightarrow> cmp a b \<le> 0 \<Longrightarrow> cmp b c \<le> 0 \<Longrightarrow> cmp a c \<le> 0"
  unfolding consistent_def by blast

lemma sorted_insort_cmp:
  assumes "consistent cmp" and "sorted_wrt (\<lambda>a b. cmp a b \<le> 0) xs"
  shows "sorted_wrt (\<lambda>a b. cmp a b \<le> 0) (insort_cmp cmp x xs)"
  using assms(2)
proof (induction xs)
  case Nil
  then show ?case by simp
next
  case (Cons y ys)
  show ?case
  proof (cases "cmp x y \<le> 0")
    case True
    have "\<forall>z \<in> set ys. cmp x z \<le> 0"
      using Cons.prems True consistent_trans [OF assms(1)] by auto
    with True Cons.prems show ?thesis by simp
  next
    case False
    then have "cmp y x \<le> 0" using consistent_total [OF assms(1)] by blast
    with False Cons show ?thesis by (auto simp: set_insort_cmp)
  qed
qed

lemma sorted_array_sort:
  "consistent cmp \<Longrightarrow> sorted_wrt (\<lambda>a b. cmp a b \<le> 0) (array_sort cmp xs)"
proof (induction xs)
  case Nil
  then show ?case by (simp add: array_sort_def)
next
  case (Cons x xs)
  then show ?case using sorted_insort_cmp [of cmp "array_sort cmp xs" x]
    by (simp add: array_sort_def)
qed

lemma array_sort_sorted_id:
  "sorted_wrt (\<lambda>a b. cmp a b \<le> 0) xs \<Longrightarrow> array_sort cmp xs = xs"
proof (induction xs)
  case Nil
  then show ?case by (simp add: array_sort_def)
next
  case (Cons x xs)
  then have "array_sort cmp xs = xs" by simp
  then have "array_sort cmp (x # xs) = insort_cmp cmp x xs" by (simp add: array_sort_def)
  also have "\<dots> = x # xs" using Cons.prems by (cases xs) auto
  finally show ?case .
qed

lemma compareInstances_le: "(compareInstances lc a b \<le> 0) = before lc a b"
  by (auto simp: compareInstances_def before_def Let_def)

lemma consistent_compareInstances:
  assumes "consistent lc" shows "consistent (compareInstances lc)"
  unfolding consistent_def
proof (intro conjI allI impI)
  fix a b
  show "(compareInstances lc a b < 0) = (0 < compareInstances lc b a)"
    using assms unfolding consistent_def compareInstances_def Let_def by auto
next
  fix a b c
  assume "compareInstances lc a b \<le> 0 \<and> compareInstances lc b c \<le> 0"
  then have "before lc a b" "before lc b c" by (simp_all add: compareInstances_le)
  then have "before lc a c"
    using consistent_trans [OF assms, of "id' c" "id' b" "id' a"] unfolding before_def by auto
  then show "compareInstances lc a c \<le> 0" by (simp add: compareInstances_le)
qed

lemma ordered_sortInstances: "consistent lc \<Longrightarrow> ordered lc (sortInstances lc xs)"
  using sorted_array_sort [OF consistent_compareInstances, of lc xs]
  by (simp add: ordered_def sortInstances_def compareInstances_le)

lemma sortInstances_ordered_id: "ordered lc xs \<Longrightarrow> sortInstances lc xs = xs"
  using array_sort_sorted_id [of "compareInstances lc" xs]
  by (simp add: ordered_def sortInstances_def compareInstances_le)

lemma before_applySession [simp]:
  "before lc (applySession t i d a) (applySession t i d b) = before lc a b"
  by (simp add: before_def applySession_def Let_def)

lemma ordered_map_applySession:
  "ordered lc xs \<Longrightarrow> ordered lc (map (applySession t i d) xs)"
  by (simp add: ordered_def sorted_wrt_map)

lemma instances_handleUpdateInstances [simp]:
  "instances (handleUpdateInstances lc stringify saved xs w) = sortInstances lc xs"
  by (simp add: handleUpdateInstances_def Let_def)

lemma ordered_Nil [simp]: "ordered lc []"
  by (simp add: ordered_def)

lemma codeUnitCompare_swap: "(codeUnitCompare a b < 0) = (0 < codeUnitCompare b a)"
  by (induction a b rule: codeUnitCompare.induct) auto

lemma codeUnitCompare_trans:
  "codeUnitCompare a b \<le> 0 \<Longrightarrow> codeUnitCompare b c \<le> 0 \<Longrightarrow> codeUnitCompare a c \<le> 0"
proof (induction a arbitrary: b c)
  case Nil
  then show ?case by (cases c) simp_all
next
  case (Cons x xs)
  from Cons.prems(1) obtain y ys where b: "b = y # ys" by (cases b) auto
  from Cons.prems(2) b obtain z zs where c: "c = z # zs" by (cases c) auto
  have xy: "(of_char x :: nat) \<le> of_char y"
    using Cons.prems(1) unfolding b by (simp split: if_splits)
  have yz: "(of_char y :: nat) \<le> of_char z"
    using Cons.prems(2) unfolding b c by (simp split: if_splits)
  show ?case
  proof (cases "(of_char x :: nat) < of_char z")
    case True
    then show ?thesis unfolding c by simp
  next
    case False
    with xy yz have e: "(of_char x :: nat) = of_char y" "(of_char y :: nat) = of_char z" by linarith+
    have "codeUnitCompare xs ys \<le> 0" using Cons.prems(1) e unfolding b by simp
    moreover have "codeUnitCompare ys zs \<le> 0" using Cons.prems(2) e unfolding b c by simp
    ultimately have "codeUnitCompare xs zs \<le> 0" by (rule Cons.IH)
    then show ?thesis using e unfolding c by simp
  qed
qed

lemma consistent_codeUnitCompare: "consistent codeUnitCompare"
  unfolding consistent_def using codeUnitCompare_swap codeUnitCompare_trans by blast

section \<open>The ordering invariant\<close>

lemma mset_sortInstances [simp]: "mset (sortInstances lc xs) = mset xs"
  by (simp add: sortInstances_def mset_array_sort)

lemma ordered_launchSettled:
  "consistent lc \<Longrightarrow> ordered lc (instances w) \<Longrightarrow>
   ordered lc (instances (launchSettled lc stringify now response saved inst captured w))"
  by (simp add: launchSettled_def Let_def ordered_sortInstances split: option.splits)

lemma ordered_step:
  assumes "consistent lc" and "ordered lc (instances w)"
  shows "ordered lc (instances (step lc stringify parse a w))"
proof (cases a)
  case (Load read)
  then show ?thesis using assms
    by (auto simp: loadInstancesData_def INITIAL_INSTANCES_def ordered_sortInstances
        split: option.splits parsed.splits)
next
  case (Save now saved)
  then show ?thesis using assms
    by (simp add: handleSave_def Let_def ordered_sortInstances)
next
  case (ConfirmDelete target saved)
  then show ?thesis using assms
    by (simp add: confirmDelete_def ordered_sortInstances split: option.splits)
next
  case (LaunchSettled k now response saved)
  then show ?thesis using assms by (simp add: ordered_launchSettled)
next
  case (GameFinished todayKey instance_id duration_sec saved)
  then show ?thesis using assms
    by (simp add: onGameFinished_def Let_def ordered_map_applySession)
next
  case (ConfirmBatchImport randomUUID batchItems saved)
  then show ?thesis using assms
    by (simp add: ordered_sortInstances split: option.splits)
qed (use assms in \<open>simp_all add: handleStartCreate_def handleStartEdit_def\<close>)

lemma ordered_run:
  assumes "consistent lc"
  shows "ordered lc (instances w) \<Longrightarrow> ordered lc (instances (run lc stringify parse acts w))"
  unfolding run_def
  by (induction acts arbitrary: w) (simp_all add: ordered_step [OF assms])

lemma ordered_played_first:
  assumes "ordered lc xs" and "i < j" and "j < length xs" and "0 < or0 (lastPlayed (xs ! j))"
  shows "0 < or0 (lastPlayed (xs ! i))"
proof -
  have "before lc (xs ! i) (xs ! j)"
    using assms(1-3) by (simp add: ordered_def sorted_wrt_iff_nth_less)
  then show ?thesis using assms(4) by (auto simp: before_def)
qed

text \<open>
  Claim C5. The list handed to the store comes back as a permutation of itself in the
  order of the rule. And in every state the application reaches from an ordered catalogue
  (the empty start state is one), by any sequence of reloads, edits, saves, deletions,
  launches called and settled, play-session events and batch commits, in any interleaving,
  the catalogue is sorted by \<open>lastPlayed\<close> descending, a missing \<open>lastPlayed\<close> counting as
  \<open>0\<close>, with ties (also among the entries never played) in \<open>id\<close> descending order; so no
  entry that was never played stands before one that was.
\<close>

theorem ordered_view_invariant:
  assumes "consistent lc" and "ordered lc (instances w)"
  shows "ordered lc (instances (run lc stringify parse acts w)) \<and>
         (\<forall>i j. i < j \<and> j < length (instances (run lc stringify parse acts w)) \<and>
                0 < or0 (lastPlayed (instances (run lc stringify parse acts w) ! j))
            \<longrightarrow> 0 < or0 (lastPlayed (instances (run lc stringify parse acts w) ! i))) \<and>
         ordered lc (instances (handleUpdateInstances lc stringify saved xs v)) \<and>
         mset (instances (handleUpdateInstances lc stringify saved xs v)) = mset xs"
  using ordered_run [OF assms] ordered_played_first ordered_sortInstances [OF assms(1)]
  by (simp add: handleUpdateInstances_def Let_def) blast

theorem ordered_view_invariant_witness:
  "consistent codeUnitCompare \<and>
   ordered codeUnitCompare (instances (world0\<lparr>instances := [instB, instC, instA]\<rparr>)) \<and>
   ordered codeUnitCompare (instances (run codeUnitCompare demoStringify demoParse
     [Launch instB, GameFinished ''2024-01-01'' ''1700000000001'' 50 True,
      LaunchSettled 0 1700000700000 (Some 4242) True]
     (world0\<lparr>instances := [instB, instC, instA]\<rparr>))) \<and>
   map (\<lambda>i. (id' i, lastPlayed i)) (instances (run codeUnitCompare demoStringify demoParse
     [Launch instB, GameFinished ''2024-01-01'' ''1700000000001'' 50 True,
      LaunchSettled 0 1700000700000 (Some 4242) True]
     (world0\<lparr>instances := [instB, instC, instA]\<rparr>)))
     = [(''1700000000002'', Some 1700000700000), (''1700000000003'', Some 0),
        (''1700000000001'', None)] \<and>
   instances (handleUpdateInstances codeUnitCompare demoStringify True [instA, instC, instB] world0)
     = [instB, instC, instA]"
proof -
  have o: "ordered codeUnitCompare (instances (world0\<lparr>instances := [instB, instC, instA]\<rparr>))"
    by (simp add: ordered_def before_def or0_def instA_def instB_def instC_def)
  have r: "map (\<lambda>i. (id' i, lastPlayed i)) (instances (run codeUnitCompare demoStringify demoParse
     [Launch instB, GameFinished ''2024-01-01'' ''1700000000001'' 50 True,
      LaunchSettled 0 1700000700000 (Some 4242) True]
     (world0\<lparr>instances := [instB, instC, instA]\<rparr>)))
     = [(''1700000000002'', Some 1700000700000), (''1700000000003'', Some 0),
        (''1700000000001'', None)]"
    by (simp add: run_def world0_def onGameFinished_def launchSettled_def
        handleUpdateInstances_def applySession_def or0_def sortInstances_def array_sort_def
        compareInstances_def instA_def instB_def instC_def Let_def)
  have u: "instances (handleUpdateInstances codeUnitCompare demoStringify True
      [instA, instC, instB] world0) = [instB, instC, instA]"
    by (simp add: handleUpdateInstances_def Let_def sortInstances_def array_sort_def
        compareInstances_def or0_def instA_def instB_def instC_def)
  show ?thesis
    using ordered_view_invariant [OF consistent_codeUnitCompare o, of demoStringify demoParse
      "[Launch instB, GameFinished ''2024-01-01'' ''1700000000001'' 50 True,
        LaunchSettled 0 1700000700000 (Some 4242) True]"]
      consistent_codeUnitCompare o r u
    by blast
qed

section \<open>Persistence\<close>

lemma sortInstances_idem:
  "consistent lc \<Longrightarrow> sortInstances lc (sortInstances lc xs) = sortInstances lc xs"
  by (simp add: sortInstances_ordered_id ordered_sortInstances)

lemma readHistory_historyJSON:
  "readHistory (map (\<lambda>(k, v). (k, JNumber v)) h) = Some h"
  by (induction h) auto

lemma optHistory_present:
  "map_of ps k = Some (historyJSON h) \<Longrightarrow> optHistory ps k = Some (Some h)"
  by (simp add: optHistory_def historyJSON_def readHistory_historyJSON)

lemma readInstance_instanceJSON: "readInstance (instanceJSON i) = Some i"
proof -
  obtain ps where ps: "instanceJSON i = JObject ps"
    and a: "stringProp ps ''id'' = Some (id' i)"
    and b: "stringProp ps ''name'' = Some (name i)"
    and c: "stringProp ps ''info'' = Some (info i)"
    and d: "stringProp ps ''bottleName'' = Some (bottleName i)"
    and e: "stringProp ps ''executablePath'' = Some (executablePath i)"
    and f: "optString ps ''backgroundImage'' = Some (backgroundImage i)"
    and g: "optNumber ps ''lastPlayed'' = Some (lastPlayed i)"
    and h: "optNumber ps ''totalPlayTime'' = Some (totalPlayTime i)"
    and k: "optHistory ps ''playHistory'' = Some (playHistory i)"
    by (cases "backgroundImage i"; cases "lastPlayed i"; cases "totalPlayTime i";
        cases "playHistory i")
       (simp_all add: instanceJSON_def stringProp_def optString_def optNumber_def
          optHistory_def historyJSON_def readHistory_historyJSON)
  show ?thesis by (simp add: readInstance_def ps a b c d e f g h k)
qed

lemma readInstances_instanceJSON: "readInstances (map instanceJSON xs) = Some xs"
  by (induction xs) (simp_all add: readInstance_instanceJSON)

lemma JSON_roundtrip: "JSON_parse (JSON_stringify xs) = Some (JSArray xs)"
  by (simp add: JSON_parse_def JSON_stringify_def readInstances_instanceJSON)


text \<open>
  Claim C6. A catalogue written as JSON and parsed again is the same catalogue, every
  field of every instance and every absent optional field included. Hence whatever state a
  process holds when it loads the payload that saving \<open>X\<close> left, the catalogue it ends with
  is exactly the sorted \<open>X\<close>. The loader applies the ordering rule to whatever array it
  reads: its catalogue is the sorted permutation of the payload, also when the payload is
  not in order. A payload that is not an array resets the catalogue to the empty list.
\<close>

theorem load_save_roundtrip:
  assumes "consistent lc"
  shows "JSON_parse (JSON_stringify X) = Some (JSArray X) \<and>
         (disk w' = disk (handleUpdateInstances lc JSON_stringify True X w) \<longrightarrow>
            instances (loadInstancesData lc JSON_parse True w') = sortInstances lc X) \<and>
         (parse (disk v) = Some (JSArray xs) \<longrightarrow>
            instances (loadInstancesData lc parse True v) = sortInstances lc xs \<and>
            ordered lc (instances (loadInstancesData lc parse True v)) \<and>
            mset (instances (loadInstancesData lc parse True v)) = mset xs) \<and>
         (parse (disk v) = Some NotArray \<longrightarrow>
            instances (loadInstancesData lc parse True v) = [])"
proof (intro conjI impI)
  show "JSON_parse (JSON_stringify X) = Some (JSArray X)" by (rule JSON_roundtrip)
next
  assume "disk w' = disk (handleUpdateInstances lc JSON_stringify True X w)"
  then have "JSON_parse (disk w') = Some (JSArray (sortInstances lc X))"
    by (simp add: handleUpdateInstances_def Let_def JSON_roundtrip)
  then show "instances (loadInstancesData lc JSON_parse True w') = sortInstances lc X"
    using assms by (simp add: loadInstancesData_def sortInstances_idem)
next
  assume p: "parse (disk v) = Some (JSArray xs)"
  then show l: "instances (loadInstancesData lc parse True v) = sortInstances lc xs"
    by (simp add: loadInstancesData_def)
  show "ordered lc (instances (loadInstancesData lc parse True v))"
    using assms by (simp add: l ordered_sortInstances)
  show "mset (instances (loadInstancesData lc parse True v)) = mset xs"
    by (simp add: l)
next
  assume "parse (disk v) = Some NotArray"
  then show "instances (loadInstancesData lc parse True v) = []"
    by (simp add: loadInstancesData_def INITIAL_INSTANCES_def)
qed

theorem load_save_roundtrip_witness:
  "consistent codeUnitCompare \<and>
   instances (loadInstancesData codeUnitCompare JSON_parse True
       (restarted (disk (handleUpdateInstances codeUnitCompare JSON_stringify True
                           [instA, instC, instB] (restarted JNull)))))
     = [instB, instC, instA] \<and>
   JSON_parse (JArray [instanceJSON instA, instanceJSON instC, instanceJSON instB])
     = Some (JSArray [instA, instC, instB]) \<and>
   instances (loadInstancesData codeUnitCompare JSON_parse True
       (restarted (JArray [instanceJSON instA, instanceJSON instC, instanceJSON instB])))
     = [instB, instC, instA] \<and>
   JSON_parse (JObject []) = Some NotArray \<and>
   instances (loadInstancesData codeUnitCompare JSON_parse True
       ((restarted (JObject []))\<lparr>instances := [instA]\<rparr>)) = []"
proof -
  have s: "sortInstances codeUnitCompare [instA, instC, instB] = [instB, instC, instA]"
    by (simp add: sortInstances_def array_sort_def compareInstances_def or0_def
        instA_def instB_def instC_def)
  have j: "JSON_parse (JArray [instanceJSON instA, instanceJSON instC, instanceJSON instB])
     = Some (JSArray [instA, instC, instB])"
    using JSON_roundtrip [of "[instA, instC, instB]"] by (simp add: JSON_stringify_def)
  have n: "JSON_parse (JObject []) = Some NotArray" by (simp add: JSON_parse_def)
  have d1: "disk (restarted (disk (handleUpdateInstances codeUnitCompare JSON_stringify True
                           [instA, instC, instB] (restarted JNull))))
     = disk (handleUpdateInstances codeUnitCompare JSON_stringify True
                           [instA, instC, instB] (restarted JNull))"
    by (simp add: restarted_def)
  have d2: "JSON_parse (disk (restarted
       (JArray [instanceJSON instA, instanceJSON instC, instanceJSON instB])))
     = Some (JSArray [instA, instC, instB])"
    using j by (simp add: restarted_def)
  have d3: "JSON_parse (disk ((restarted (JObject []))\<lparr>instances := [instA]\<rparr>)) = Some NotArray"
    using n by (simp add: restarted_def)
  show ?thesis
    using load_save_roundtrip [OF consistent_codeUnitCompare,
        of "[instA, instC, instB]"
           "restarted (disk (handleUpdateInstances codeUnitCompare JSON_stringify True
                           [instA, instC, instB] (restarted JNull)))"
           "restarted JNull" JSON_parse
           "restarted (JArray [instanceJSON instA, instanceJSON instC, instanceJSON instB])"
           "[instA, instC, instB]"]
      load_save_roundtrip [OF consistent_codeUnitCompare,
        of "[instA]" "restarted JNull" "restarted JNull" JSON_parse
           "(restarted (JObject []))\<lparr>instances := [instA]\<rparr>" "[]"]
      consistent_codeUnitCompare d1 d2 d3 j n s
    by simp
qed

section \<open>The play-session event handler\<close>

lemma length_onGameFinished [simp]:
  "length (instances (onGameFinished stringify saved t i d w)) = length (instances w)"
  by (simp add: onGameFinished_def Let_def)

lemma nth_onGameFinished:
  "k < length (instances w) \<Longrightarrow>
   instances (onGameFinished stringify saved t i d w) ! k = applySession t i d (instances w ! k)"
  by (simp add: onGameFinished_def Let_def)

lemma applySession_other: "id' inst \<noteq> i \<Longrightarrow> applySession t i d inst = inst"
  by (simp add: applySession_def)

lemma applySession_target:
  assumes "id' inst = i"
  shows "totalPlayTime (applySession t i d inst) = Some (or0 (totalPlayTime inst) + d)"
    and "historyAt (applySession t i d inst) t = Some (or0 (historyAt inst t) + d)"
    and "key \<noteq> t \<Longrightarrow> historyAt (applySession t i d inst) key = historyAt inst key"
    and "(applySession t i d inst)\<lparr>totalPlayTime := totalPlayTime inst,
            playHistory := playHistory inst\<rparr> = inst"
  using assms
  by (simp_all add: applySession_def historyAt_def Let_def update_conv' split: option.splits)

lemma onGameFinished_absent:
  "i \<notin> id' ` set (instances w) \<Longrightarrow>
   instances (onGameFinished stringify saved t i d w) = instances w"
proof -
  assume a: "i \<notin> id' ` set (instances w)"
  have "applySession t i d x = x" if "x \<in> set (instances w)" for x
    using a that by (intro applySession_other) auto
  then show ?thesis by (simp add: onGameFinished_def Let_def map_idI)
qed

text \<open>
  Claim C2. A play-session event for an id replaces, position by position, exactly the
  instances with that id (one instance, ids being unique): its \<open>totalPlayTime\<close> becomes
  the old value (\<open>0\<close> when absent) plus the duration, the entry of \<open>playHistory\<close> for
  today's key becomes the old entry (\<open>0\<close> when absent) plus the duration, every other day
  key and every other field is as before; every other instance is unchanged; and when no
  instance has the id the catalogue is unchanged.
\<close>

theorem game_finished_replaces_only_target:
  "length (instances (onGameFinished stringify saved t i d w)) = length (instances w) \<and>
   (\<forall>k < length (instances w).
      if id' (instances w ! k) = i
      then totalPlayTime (instances (onGameFinished stringify saved t i d w) ! k)
             = Some (or0 (totalPlayTime (instances w ! k)) + d) \<and>
           historyAt (instances (onGameFinished stringify saved t i d w) ! k) t
             = Some (or0 (historyAt (instances w ! k) t) + d) \<and>
           (\<forall>key. key \<noteq> t \<longrightarrow>
              historyAt (instances (onGameFinished stringify saved t i d w) ! k) key
                = historyAt (instances w ! k) key) \<and>
           (instances (onGameFinished stringify saved t i d w) ! k)
              \<lparr>totalPlayTime := totalPlayTime (instances w ! k),
               playHistory := playHistory (instances w ! k)\<rparr> = instances w ! k
      else instances (onGameFinished stringify saved t i d w) ! k = instances w ! k) \<and>
   (i \<notin> id' ` set (instances w) \<longrightarrow>
      instances (onGameFinished stringify saved t i d w) = instances w)"
  by (simp add: nth_onGameFinished applySession_other applySession_target onGameFinished_absent)

theorem game_finished_replaces_only_target_witness:
  "totalPlayTime (instances (onGameFinished demoStringify True ''2024-01-01'' ''1700000000002'' 50
       (world0\<lparr>instances := [instB, instA]\<rparr>)) ! 0) = Some 150 \<and>
   historyAt (instances (onGameFinished demoStringify True ''2024-01-01'' ''1700000000002'' 50
       (world0\<lparr>instances := [instB, instA]\<rparr>)) ! 0) ''2024-01-01'' = Some 150 \<and>
   instances (onGameFinished demoStringify True ''2024-01-01'' ''1700000000002'' 50
       (world0\<lparr>instances := [instB, instA]\<rparr>)) ! 1 = instA \<and>
   ''1699999999999'' \<notin> id' ` set (instances (world0\<lparr>instances := [instB, instA]\<rparr>)) \<and>
   instances (onGameFinished demoStringify True ''2024-01-01'' ''1699999999999'' 50
       (world0\<lparr>instances := [instB, instA]\<rparr>)) = [instB, instA]"
proof -
  let ?w = "world0\<lparr>instances := [instB, instA]\<rparr>"
  have a: "''1699999999999'' \<notin> id' ` set (instances ?w)"
    by (simp add: instA_def instB_def)
  note g = game_finished_replaces_only_target [of demoStringify True "''2024-01-01''" "''1700000000002''" 50 ?w]
  note h = game_finished_replaces_only_target [of demoStringify True "''2024-01-01''" "''1699999999999''" 50 ?w]
  from g have g0: "id' (instances ?w ! 0) = ''1700000000002'' \<longrightarrow>
       totalPlayTime (instances (onGameFinished demoStringify True ''2024-01-01'' ''1700000000002'' 50 ?w) ! 0)
             = Some (or0 (totalPlayTime (instances ?w ! 0)) + 50) \<and>
       historyAt (instances (onGameFinished demoStringify True ''2024-01-01'' ''1700000000002'' 50 ?w) ! 0) ''2024-01-01''
             = Some (or0 (historyAt (instances ?w ! 0) ''2024-01-01'') + 50)"
    by (simp split: if_splits)
  from g have g1: "id' (instances ?w ! 1) \<noteq> ''1700000000002'' \<longrightarrow>
       instances (onGameFinished demoStringify True ''2024-01-01'' ''1700000000002'' 50 ?w) ! 1
         = instances ?w ! 1"
    by (simp split: if_splits)
  from h a have h': "instances (onGameFinished demoStringify True ''2024-01-01'' ''1699999999999'' 50 ?w)
      = instances ?w" by blast
  show ?thesis using g0 g1 h' a
    by (simp add: instA_def instB_def or0_def historyAt_def)
qed

lemma applySession_zero_total:
  "or0 (totalPlayTime (applySession t i 0 inst)) = or0 (totalPlayTime inst)"
  by (simp add: applySession_def Let_def or0_def)

lemma applySession_zero_history:
  "or0 (historyAt (applySession t i 0 inst) key) = or0 (historyAt inst key)"
  by (cases "key = t")
     (auto simp: applySession_def Let_def or0_def historyAt_def update_conv' split: option.splits)

lemma applySession_zero_rest:
  "(applySession t i 0 inst)\<lparr>totalPlayTime := None, playHistory := None\<rparr>
     = inst\<lparr>totalPlayTime := None, playHistory := None\<rparr>"
  by (simp add: applySession_def Let_def)

lemma applySession_zero_present:
  assumes "totalPlayTime inst = Some v" and "historyAt inst t = Some u"
  shows "applySession t i 0 inst = inst"
proof -
  obtain h where h: "playHistory inst = Some h" "map_of h t = Some u"
    using assms(2) by (auto simp: historyAt_def split: option.splits)
  then have "AList.update t u h = h" by (simp add: update_triv)
  with h assms(1) show ?thesis by (simp add: applySession_def Let_def or0_def)
qed

text \<open>
  Claim C3, amended. A play-session event of duration \<open>0\<close> leaves the seconds of every
  instance unchanged when an absent value is read as \<open>0\<close>: \<open>totalPlayTime\<close>, the
  \<open>playHistory\<close> entry of every day key, and all other fields. Where the affected instance
  already has a \<open>totalPlayTime\<close> and an entry for today, the catalogue is unchanged as a
  value. (Otherwise the handler writes the missing \<open>totalPlayTime\<close> and today's entry,
  each with the value \<open>0\<close>.)
\<close>

theorem zero_duration_keeps_values:
  "map (\<lambda>x. or0 (totalPlayTime x)) (instances (onGameFinished stringify saved t i 0 w))
     = map (\<lambda>x. or0 (totalPlayTime x)) (instances w) \<and>
   map (\<lambda>x. or0 (historyAt x key)) (instances (onGameFinished stringify saved t i 0 w))
     = map (\<lambda>x. or0 (historyAt x key)) (instances w) \<and>
   map (\<lambda>x. x\<lparr>totalPlayTime := None, playHistory := None\<rparr>)
       (instances (onGameFinished stringify saved t i 0 w))
     = map (\<lambda>x. x\<lparr>totalPlayTime := None, playHistory := None\<rparr>) (instances w) \<and>
   ((\<forall>x \<in> set (instances w). id' x = i \<longrightarrow> totalPlayTime x \<noteq> None \<and> historyAt x t \<noteq> None)
      \<longrightarrow> instances (onGameFinished stringify saved t i 0 w) = instances w)"
proof -
  have "instances (onGameFinished stringify saved t i 0 w) = instances w"
    if a: "\<forall>x \<in> set (instances w). id' x = i \<longrightarrow> totalPlayTime x \<noteq> None \<and> historyAt x t \<noteq> None"
  proof -
    have "applySession t i 0 x = x" if "x \<in> set (instances w)" for x
    proof (cases "id' x = i")
      case True
      with a that obtain v u where "totalPlayTime x = Some v" "historyAt x t = Some u" by auto
      then show ?thesis by (rule applySession_zero_present)
    next
      case False
      then show ?thesis by (rule applySession_other)
    qed
    then show ?thesis by (simp add: onGameFinished_def Let_def map_idI)
  qed
  then show ?thesis
    by (simp add: onGameFinished_def Let_def o_def applySession_zero_total
        applySession_zero_history applySession_zero_rest)
qed

theorem zero_duration_keeps_values_witness:
  "totalPlayTime instB \<noteq> None \<and> historyAt instB ''2024-01-01'' \<noteq> None \<and>
   id' instA \<noteq> ''1700000000002'' \<and>
   instances (onGameFinished demoStringify True ''2024-01-01'' ''1700000000002'' 0
       (world0\<lparr>instances := [instB, instA]\<rparr>)) = [instB, instA]"
proof -
  have b: "totalPlayTime instB \<noteq> None" "historyAt instB ''2024-01-01'' \<noteq> None"
    "id' instA \<noteq> ''1700000000002''"
    by (simp_all add: instA_def instB_def historyAt_def)
  then have a: "\<forall>x \<in> set (instances (world0\<lparr>instances := [instB, instA]\<rparr>)).
       id' x = ''1700000000002'' \<longrightarrow> totalPlayTime x \<noteq> None \<and> historyAt x ''2024-01-01'' \<noteq> None"
    by simp
  show ?thesis
    using zero_duration_keeps_values [of demoStringify True "''2024-01-01''" "''1700000000002''"
        "world0\<lparr>instances := [instB, instA]\<rparr>" "''2024-01-01''"] a b
    by simp
qed

text \<open>
  The claim as stated fails: on an instance as the creation form makes it (empty
  \<open>playHistory\<close>), an event of duration \<open>0\<close> adds the entry for today.
\<close>

theorem zero_duration_counterexample:
  "playHistory (instances (world0\<lparr>instances := [instA]\<rparr>) ! 0) = Some [] \<and>
   playHistory (instances (onGameFinished demoStringify True ''2024-01-01'' ''1700000000001'' 0
       (world0\<lparr>instances := [instA]\<rparr>)) ! 0) = Some [(''2024-01-01'', 0)]"
  by (simp add: onGameFinished_def applySession_def Let_def instA_def or0_def)

section \<open>The playtime invariant\<close>





lemma set_sortInstances [simp]: "set (sortInstances lc xs) = set xs"
  by (simp add: sortInstances_def set_array_sort)

lemma allPaired_sortInstances [simp]: "allPaired (sortInstances lc xs) = allPaired xs"
  by (simp add: allPaired_def)















section \<open>Concurrent edits and launches\<close>

lemma sortInstances_single [simp]: "sortInstances lc [x] = [x]"
  by (simp add: sortInstances_def array_sort_def)

text \<open>
  Claim C1. The specification asks that an edit-save renaming an instance and a play-session
  event for the same instance both survive whichever settles first. The two orders are run
  on the catalogue holding the one instance \<open>instA\<close>, the edit form having been opened and
  the name typed before either settles. When the save settles first, both writes survive.
  When the event settles first, the save writes back the copy of the instance the form took
  when it was opened, and the playtime of the event is gone.
\<close>

theorem edit_save_after_event_loses_playtime:
  "instances (run codeUnitCompare demoStringify demoParse
      [StartEdit 0, SetName ''Renamed'',
       GameFinished ''2024-01-01'' ''1700000000001'' 50 True,
       Save 1700000600000 True]
      (world0\<lparr>instances := [instA]\<rparr>))
     = [instA\<lparr>name := ''Renamed''\<rparr>] \<and>
   instances (run codeUnitCompare demoStringify demoParse
      [StartEdit 0, SetName ''Renamed'',
       Save 1700000600000 True,
       GameFinished ''2024-01-01'' ''1700000000001'' 50 True]
      (world0\<lparr>instances := [instA]\<rparr>))
     = [instA\<lparr>name := ''Renamed'', totalPlayTime := Some 50,
               playHistory := Some [(''2024-01-01'', 50)]\<rparr>]"
  by (simp add: run_def world0_def handleStartEdit_def handleSave_def onGameFinished_def
      handleUpdateInstances_def applySession_def merge_def spread_def truthy_def or0_def
      instA_def Let_def)

text \<open>
  Claim C10. When the launch collaborator reports failure the state is returned as it was:
  no instance changes (also not \<open>lastPlayed\<close>) and nothing is written to the persisted
  payload. When it succeeds, the new catalogue is the old one with \<open>lastPlayed\<close> of the
  launched id set to the current time, re-sorted by the ordering rule, and this sorted list
  is what a successful write persists.
\<close>

theorem launch_failure_leaves_state:
  assumes "consistent lc"
  shows "handleLaunch lc stringify now None saved inst w = w \<and>
         mset (instances (handleLaunch lc stringify now (Some pid) saved inst w))
           = mset (map (\<lambda>i. if id' i = id' inst then i\<lparr>lastPlayed := Some (int now)\<rparr> else i)
                    (instances w)) \<and>
         ordered lc (instances (handleLaunch lc stringify now (Some pid) saved inst w)) \<and>
         disk (handleLaunch lc stringify now (Some pid) True inst w)
           = stringify (instances (handleLaunch lc stringify now (Some pid) True inst w))"
  using assms
  by (simp add: handleLaunch_def launchSettled_def Let_def mset_array_sort
      ordered_sortInstances handleUpdateInstances_def)

theorem launch_failure_leaves_state_witness:
  "consistent codeUnitCompare \<and>
   handleLaunch codeUnitCompare demoStringify 1700000700000 None True instA
      (world0\<lparr>instances := [instB, instA]\<rparr>) = world0\<lparr>instances := [instB, instA]\<rparr> \<and>
   ordered codeUnitCompare (instances (handleLaunch codeUnitCompare demoStringify 1700000700000
      (Some 4242) True instA (world0\<lparr>instances := [instB, instA]\<rparr>)))"
  using launch_failure_leaves_state [OF consistent_codeUnitCompare, of demoStringify 1700000700000
      True instA "world0\<lparr>instances := [instB, instA]\<rparr>" 4242]
    consistent_codeUnitCompare
  by simp

section \<open>The metadata search aggregator\<close>

lemma dedupBy_snoc:
  "foldl (\<lambda>m item. AList.update (key item) item m) [] (xs @ [x])
     = AList.update (key x) x (foldl (\<lambda>m item. AList.update (key item) item m) [] xs)"
  by simp

lemma keys_foldl_update:
  "map fst (foldl (\<lambda>m item. AList.update (key item) item m) [] xs)
     = rev (remdups (rev (map key xs)))"
proof (induction xs rule: rev_induct)
  case Nil
  then show ?case by simp
next
  case (snoc x xs)
  then show ?case by (simp add: update_keys del: foldl_append add: dedupBy_snoc)
qed

lemma map_of_foldl_update:
  "map_of (foldl (\<lambda>m item. AList.update (key item) item m) [] xs) k
     = find (\<lambda>x. key x = k) (rev xs)"
proof (induction xs rule: rev_induct)
  case Nil
  then show ?case by simp
next
  case (snoc x xs)
  then show ?case by (auto simp: update_conv')
qed

lemma set_update_insert: "set (AList.update k v al) \<subseteq> insert (k, v) (set al)"
  by (induction al) auto

lemma filter_key_distinct:
  "distinct (map f xs) \<Longrightarrow> y \<in> set xs \<Longrightarrow> length (filter (\<lambda>r. f r = f y) xs) = 1"
proof (induction xs)
  case Nil
  then show ?case by simp
next
  case (Cons x xs)
  show ?case
  proof (cases "f x = f y")
    case True
    have "f x \<notin> f ` set xs" using Cons.prems(1) by simp
    then have "\<forall>r \<in> set xs. f r \<noteq> f y" using True by (metis imageI)
    then have "filter (\<lambda>r. f r = f y) xs = []"
      by (simp add: filter_empty_conv)
    with True show ?thesis by simp
  next
    case False
    with Cons show ?thesis by auto
  qed
qed

lemma entries_foldl_update:
  "p \<in> set (foldl (\<lambda>m item. AList.update (key item) item m) [] xs) \<Longrightarrow>
   fst p = key (snd p) \<and> snd p \<in> set xs"
proof (induction xs arbitrary: p rule: rev_induct)
  case Nil
  then show ?case by simp
next
  case (snoc x xs)
  from snoc.prems have "p \<in> set (AList.update (key x) x
      (foldl (\<lambda>m item. AList.update (key item) item m) [] xs))" by simp
  then have "p = (key x, x) \<or> p \<in> set (foldl (\<lambda>m item. AList.update (key item) item m) [] xs)"
    using set_update_insert by fastforce
  then show ?case
  proof
    assume "p = (key x, x)"
    then show ?thesis by simp
  next
    assume "p \<in> set (foldl (\<lambda>m item. AList.update (key item) item m) [] xs)"
    from snoc.IH [OF this] show ?thesis by simp
  qed
qed

lemma distinct_foldl_update:
  "distinct (map fst (foldl (\<lambda>m item. AList.update (key item) item m) [] xs))"
  by (simp add: keys_foldl_update)

lemma map_key_dedupBy: "map key (dedupBy key xs) = rev (remdups (rev (map key xs)))"
proof -
  have "map key (dedupBy key xs)
      = map fst (foldl (\<lambda>m item. AList.update (key item) item m) [] xs)"
    unfolding dedupBy_def using entries_foldl_update [of _ key xs] by (simp add: o_def)
  then show ?thesis by (simp add: keys_foldl_update)
qed

lemma dedupBy_last_wins:
  assumes "r \<in> set (dedupBy key xs)"
  shows "find (\<lambda>x. key x = key r) (rev xs) = Some r"
proof -
  from assms obtain k where p: "(k, r) \<in> set (foldl (\<lambda>m item. AList.update (key item) item m) [] xs)"
    by (auto simp: dedupBy_def)
  then have k: "k = key r" using entries_foldl_update [OF p] by simp
  have "map_of (foldl (\<lambda>m item. AList.update (key item) item m) [] xs) k = Some r"
    using p distinct_foldl_update [of key xs] by simp
  then show ?thesis by (simp add: map_of_foldl_update k)
qed

lemma set_dedupBy_subset: "set (dedupBy key xs) \<subseteq> set xs"
  using entries_foldl_update [of _ key xs] by (auto simp: dedupBy_def)

lemma dedupBy_one_per_key:
  assumes "x \<in> set xs"
  shows "length (filter (\<lambda>r. key r = key x) (dedupBy key xs)) = 1"
proof -
  have d: "distinct (map key (dedupBy key xs))" by (simp add: map_key_dedupBy)
  have "key x \<in> set (map key (dedupBy key xs))" using assms by (simp add: map_key_dedupBy)
  then obtain y where y: "y \<in> set (dedupBy key xs)" "key y = key x" by auto
  from filter_key_distinct [OF d y(1)] y(2) show ?thesis by simp
qed

lemma update_values_cong:
  assumes "map snd m1 = map snd m2"
    and "\<forall>p \<in> set m1. fst p = k1 (snd p)" and "\<forall>p \<in> set m2. fst p = k2 (snd p)"
    and "\<forall>v \<in> snd ` set m1. (k1 x = k1 v) = (k2 x = k2 v)"
  shows "map snd (AList.update (k1 x) x m1) = map snd (AList.update (k2 x) x m2)"
  using assms
proof (induction m1 arbitrary: m2)
  case Nil
  then show ?case by simp
next
  case (Cons p ps)
  then obtain q qs where m2: "m2 = q # qs" by (cases m2) auto
  with Cons.prems have "snd p = snd q" "map snd ps = map snd qs" by simp_all
  moreover have "map snd (AList.update (k1 x) x ps) = map snd (AList.update (k2 x) x qs)"
    using Cons.prems m2 by (intro Cons.IH) auto
  ultimately show ?case using Cons.prems m2 by (cases p; cases q) (auto simp: eq_commute)
qed

lemma dedupBy_key_cong:
  assumes "\<forall>x \<in> set xs. \<forall>y \<in> set xs. (k1 x = k1 y) = (k2 x = k2 y)"
  shows "dedupBy k1 xs = dedupBy k2 xs"
  using assms
proof (induction xs rule: rev_induct)
  case Nil
  then show ?case by (simp add: dedupBy_def)
next
  case (snoc x xs)
  let ?m1 = "foldl (\<lambda>m item. AList.update (k1 item) item m) [] xs"
  let ?m2 = "foldl (\<lambda>m item. AList.update (k2 item) item m) [] xs"
  have ih: "map snd ?m1 = map snd ?m2" using snoc by (simp add: dedupBy_def)
  have "map snd (AList.update (k1 x) x ?m1) = map snd (AList.update (k2 x) x ?m2)"
  proof (rule update_values_cong [OF ih])
    show "\<forall>p \<in> set ?m1. fst p = k1 (snd p)" using entries_foldl_update by blast
    show "\<forall>p \<in> set ?m2. fst p = k2 (snd p)" using entries_foldl_update by blast
    show "\<forall>v \<in> snd ` set ?m1. (k1 x = k1 v) = (k2 x = k2 v)"
      using snoc.prems entries_foldl_update [of _ k1 xs] by auto
  qed
  then show ?case by (simp add: dedupBy_def)
qed

lemma fetchGameResults_dedupBy:
  "fetchGameResults search_game keywords
     = dedupBy (\<lambda>r. title r @ source r) (allResults search_game keywords)"
  by (simp add: fetchGameResults_def allResults_def dedupBy_def Let_def)

lemma tagged_keys_injective:
  assumes "suffixFree tags" and "source x \<in> tags" and "source y \<in> tags"
    and "title x @ source x = title y @ source y"
  shows "title x = title y \<and> source x = source y"
proof -
  have sf: "p = []" if "s \<in> tags" "t \<in> tags" "s = p @ t" for s t p
    using assms(1) that unfolding suffixFree_def by blast
  from assms(4) consider us where "title x = title y @ us" "us @ source x = source y"
    | us where "title x @ us = title y" "source x = us @ source y"
    by (auto simp: append_eq_append_conv2)
  then show ?thesis
  proof cases
    case 1
    have "us = []" by (rule sf [OF assms(3) assms(2)]) (rule 1(2) [symmetric])
    with 1 show ?thesis by simp
  next
    case 2
    have "us = []" by (rule sf [OF assms(2) assms(3)]) (rule 2(2))
    with 2 show ?thesis by simp
  qed
qed

lemma suffixFree_providerTags: "suffixFree providerTags"
proof -
  have "p = []" if "s \<in> providerTags" "t \<in> providerTags" "s = p @ t" for s t p
  proof -
    from that(3) have "rev s = rev t @ rev p" by simp
    with that(1,2) show ?thesis by (auto simp: providerTags_def)
  qed
  then show ?thesis unfolding suffixFree_def by blast
qed

lemma catch_Some_catch: "catch (Some (catch p)) = catch p"
  by (simp add: catch_def)

lemma fetchGameResults_spec_dedup:
  assumes "suffixFree tags" and "\<forall>r \<in> set (allResults search_game keywords). source r \<in> tags"
  shows "fetchGameResults search_game keywords = spec_dedup (allResults search_game keywords)"
proof -
  have "dedupBy (\<lambda>r. title r @ source r) (allResults search_game keywords)
      = dedupBy (\<lambda>r. (title r, source r)) (allResults search_game keywords)"
  proof (rule dedupBy_key_cong, intro ballI)
    fix x y
    assume "x \<in> set (allResults search_game keywords)" "y \<in> set (allResults search_game keywords)"
    with assms show "(title x @ source x = title y @ source y)
        = ((title x, source x) = (title y, source y))"
      using tagged_keys_injective [of tags x y] by auto
  qed
  then show ?thesis by (simp add: fetchGameResults_dedupBy spec_dedup_def)
qed

text \<open>
  Claim C9. The \<open>source\<close> of a result is the identifier of the provider that returned it,
  and no provider identifier ends with another one. Then the aggregator, which merges the
  results of all requests in request order, is deduplication by the pair (title, source):
  the entries stand in the order in which their pairs were first seen, each entry is the
  last result written under its pair, and every merged result has exactly one entry with
  its title and source. A rejected request counts as an empty result and the aggregation
  goes on.
\<close>

theorem search_aggregation:
  assumes "suffixFree tags"
    and "\<forall>r \<in> set (allResults search_game keywords). source r \<in> tags"
  shows "fetchGameResults search_game keywords = spec_dedup (allResults search_game keywords) \<and>
   map (\<lambda>r. (title r, source r)) (fetchGameResults search_game keywords)
     = rev (remdups (rev (map (\<lambda>r. (title r, source r)) (allResults search_game keywords)))) \<and>
   (\<forall>r \<in> set (fetchGameResults search_game keywords).
      find (\<lambda>x. title x = title r \<and> source x = source r) (rev (allResults search_game keywords))
        = Some r) \<and>
   (\<forall>x \<in> set (allResults search_game keywords).
      length (filter (\<lambda>r. title r = title x \<and> source r = source x)
                (fetchGameResults search_game keywords)) = 1) \<and>
   fetchGameResults search_game keywords
     = fetchGameResults (\<lambda>kw src. Some (catch (search_game kw src))) keywords"
proof (intro conjI ballI)
  note f = fetchGameResults_spec_dedup [OF assms]
  show "fetchGameResults search_game keywords = spec_dedup (allResults search_game keywords)"
    by (rule f)
  show "map (\<lambda>r. (title r, source r)) (fetchGameResults search_game keywords)
     = rev (remdups (rev (map (\<lambda>r. (title r, source r)) (allResults search_game keywords))))"
    by (simp add: f spec_dedup_def map_key_dedupBy)
  show "find (\<lambda>x. title x = title r \<and> source x = source r) (rev (allResults search_game keywords))
        = Some r" if "r \<in> set (fetchGameResults search_game keywords)" for r
    using dedupBy_last_wins [of r "\<lambda>r. (title r, source r)" "allResults search_game keywords"] that
    by (simp add: f spec_dedup_def)
  show "length (filter (\<lambda>r. title r = title x \<and> source r = source x)
                (fetchGameResults search_game keywords)) = 1"
    if "x \<in> set (allResults search_game keywords)" for x
    using dedupBy_one_per_key [of x "allResults search_game keywords" "\<lambda>r. (title r, source r)"] that
    by (simp add: f spec_dedup_def)
  show "fetchGameResults search_game keywords
     = fetchGameResults (\<lambda>kw src. Some (catch (search_game kw src))) keywords"
    by (simp add: fetchGameResults_def catch_Some_catch)
qed

lemma allResults_demo: "allResults demoSearch [''clannad'', ''key''] = [resTouch, resTouch, resKun]"
  by (simp add: allResults_def demoSearch_def catch_def)

theorem search_aggregation_witness:
  "suffixFree providerTags \<and>
   allResults demoSearch [''clannad'', ''key''] = [resTouch, resTouch, resKun] \<and>
   list_all (\<lambda>r. source r \<in> providerTags) (allResults demoSearch [''clannad'', ''key'']) \<and>
   fetchGameResults demoSearch [''clannad'', ''key'']
     = spec_dedup (allResults demoSearch [''clannad'', ''key'']) \<and>
   fetchGameResults demoSearch [''clannad'', ''key''] = [resTouch, resKun] \<and>
   length (filter (\<lambda>r. title r = title resTouch \<and> source r = source resTouch)
             (fetchGameResults demoSearch [''clannad'', ''key''])) = 1"
proof -
  have a: "\<forall>r \<in> set (allResults demoSearch [''clannad'', ''key'']). source r \<in> providerTags"
    by (simp add: allResults_demo resTouch_def resKun_def providerTags_def)
  have b: "resTouch \<in> set (allResults demoSearch [''clannad'', ''key''])"
    by (simp add: allResults_demo)
  have c: "spec_dedup (allResults demoSearch [''clannad'', ''key'']) = [resTouch, resKun]"
    by (simp add: allResults_demo spec_dedup_def dedupBy_def resTouch_def resKun_def)
  note t = search_aggregation [OF suffixFree_providerTags a]
  from t have e: "fetchGameResults demoSearch [''clannad'', ''key'']
      = spec_dedup (allResults demoSearch [''clannad'', ''key''])" by (rule conjunct1)
  from t b have o: "length (filter (\<lambda>r. title r = title resTouch \<and> source r = source resTouch)
             (fetchGameResults demoSearch [''clannad'', ''key''])) = 1" by blast
  have l: "list_all (\<lambda>r. source r \<in> providerTags) (allResults demoSearch [''clannad'', ''key''])"
    using a unfolding list_all_iff .
  show ?thesis
    using suffixFree_providerTags allResults_demo l e o c by (simp only: simp_thms)
qed

section \<open>Batch import\<close>

lemma importItem_fields:
  "id' (importItem u item) = u"
  "executablePath (importItem u item) = selectedExec item"
  "bottleName (importItem u item) = item_bottleName item"
  "lastPlayed (importItem u item) = None"
  "totalPlayTime (importItem u item) = None"
  "playHistory (importItem u item) = None"
  by (simp_all add: importItem_def Let_def)

lemma importItem_name:
  "p_name (manualInfo item) = Some n \<Longrightarrow> n \<noteq> [] \<Longrightarrow> name (importItem u item) = n"
  "\<not> truthy (p_name (manualInfo item)) \<Longrightarrow> matchedResult item = Some r \<Longrightarrow> title r \<noteq> [] \<Longrightarrow>
     name (importItem u item) = title r"
  "\<not> truthy (p_name (manualInfo item)) \<Longrightarrow> \<not> truthy (map_option title (matchedResult item)) \<Longrightarrow>
     name (importItem u item) = dirName item"
  by (auto simp: importItem_def Let_def str_or_def truthy_def split: option.splits)

lemma importItem_cover:
  "truthy (p_backgroundImage (manualInfo item)) \<Longrightarrow>
     backgroundImage (importItem u item) = p_backgroundImage (manualInfo item)"
  "\<not> truthy (p_backgroundImage (manualInfo item)) \<Longrightarrow>
     backgroundImage (importItem u item) = map_option cover (matchedResult item)"
  by (simp_all add: importItem_def Let_def)

lemma importItem_spec_name:
  "p_name (manualInfo item) \<noteq> Some [] \<Longrightarrow> map_option title (matchedResult item) \<noteq> Some [] \<Longrightarrow>
   name (importItem u item) = spec_finalName item"
  by (auto simp: importItem_def Let_def str_or_def spec_finalName_def nullish_def
      split: option.splits)

lemma handleConfirmBatchImport_None:
  "filter selected items = [] \<Longrightarrow> handleConfirmBatchImport u insts items = None"
  by (simp add: handleConfirmBatchImport_def)

lemma handleConfirmBatchImport_Some:
  "filter selected items \<noteq> [] \<Longrightarrow>
   handleConfirmBatchImport u insts items
     = Some (insts @ map (\<lambda>(k, item). importItem (u k) item)
                        (List.enumerate 0 (filter selected items)))"
  by (simp add: handleConfirmBatchImport_def Let_def)

lemma nth_imported:
  "k < length xs \<Longrightarrow>
   map (\<lambda>(k, item). importItem (u k) item) (List.enumerate 0 xs) ! k = importItem (u k) (xs ! k)"
  by (simp add: nth_enumerate_eq)

text \<open>
  Claim C7, amended. The commit builds one new instance for exactly each selected item, in
  order, and hands the prior catalogue followed by the whole batch to the store in one call,
  after which the catalogue holds the prior instances and the new ones; with no selected
  item the handler returns without a call and the state is unchanged. For each new instance
  \<open>executablePath\<close> is the item's \<open>selectedExec\<close> and \<open>bottleName\<close> the item's. The name is
  the first non-empty of \<open>manualInfo.name\<close> and \<open>matchedResult.title\<close>, else \<open>dirName\<close>; the
  background image is \<open>manualInfo.backgroundImage\<close> when non-empty, else
  \<open>matchedResult.cover\<close> (absent without a match). An empty string counts as absent (the
  code uses \<open>||\<close>); where neither candidate is the empty string the name is the one the
  \<open>??\<close> rule gives.
\<close>

theorem batch_commit:
  "(filter selected items = [] \<longrightarrow>
      handleConfirmBatchImport u (instances w) items = None \<and>
      step lc stringify parse (ConfirmBatchImport u items saved) w = w) \<and>
   (filter selected items \<noteq> [] \<longrightarrow>
      (\<exists>news. handleConfirmBatchImport u (instances w) items = Some (instances w @ news) \<and>
         mset (instances (step lc stringify parse (ConfirmBatchImport u items saved) w))
           = mset (instances w) + mset news \<and>
         length news = length (filter selected items) \<and>
         (\<forall>k < length news.
            id' (news ! k) = u k \<and>
            executablePath (news ! k) = selectedExec (filter selected items ! k) \<and>
            bottleName (news ! k) = item_bottleName (filter selected items ! k) \<and>
            (\<forall>n. p_name (manualInfo (filter selected items ! k)) = Some n \<and> n \<noteq> []
               \<longrightarrow> name (news ! k) = n) \<and>
            (\<forall>r. \<not> truthy (p_name (manualInfo (filter selected items ! k))) \<and>
                 matchedResult (filter selected items ! k) = Some r \<and> title r \<noteq> []
               \<longrightarrow> name (news ! k) = title r) \<and>
            (\<not> truthy (p_name (manualInfo (filter selected items ! k))) \<and>
             \<not> truthy (map_option title (matchedResult (filter selected items ! k)))
               \<longrightarrow> name (news ! k) = dirName (filter selected items ! k)) \<and>
            (p_name (manualInfo (filter selected items ! k)) \<noteq> Some [] \<and>
             map_option title (matchedResult (filter selected items ! k)) \<noteq> Some []
               \<longrightarrow> name (news ! k) = spec_finalName (filter selected items ! k)) \<and>
            (truthy (p_backgroundImage (manualInfo (filter selected items ! k)))
               \<longrightarrow> backgroundImage (news ! k)
                     = p_backgroundImage (manualInfo (filter selected items ! k))) \<and>
            (\<not> truthy (p_backgroundImage (manualInfo (filter selected items ! k)))
               \<longrightarrow> backgroundImage (news ! k)
                     = map_option cover (matchedResult (filter selected items ! k))))))"
proof (intro conjI impI)
  assume e: "filter selected items = []"
  then show "handleConfirmBatchImport u (instances w) items = None"
    by (rule handleConfirmBatchImport_None)
  then show "step lc stringify parse (ConfirmBatchImport u items saved) w = w" by simp
next
  assume ne: "filter selected items \<noteq> []"
  let ?sel = "filter selected items"
  let ?news = "map (\<lambda>(k, item). importItem (u k) item) (List.enumerate 0 ?sel)"
  have s: "handleConfirmBatchImport u (instances w) items = Some (instances w @ ?news)"
    using ne by (rule handleConfirmBatchImport_Some)
  have m: "mset (instances (step lc stringify parse (ConfirmBatchImport u items saved) w))
           = mset (instances w) + mset ?news"
    by (simp add: s)
  have l: "length ?news = length ?sel" by simp
  have f: "?news ! k = importItem (u k) (?sel ! k)" if "k < length ?news" for k
    using that by (simp add: nth_enumerate_eq)
  show "\<exists>news. handleConfirmBatchImport u (instances w) items = Some (instances w @ news) \<and>
         mset (instances (step lc stringify parse (ConfirmBatchImport u items saved) w))
           = mset (instances w) + mset news \<and>
         length news = length ?sel \<and>
         (\<forall>k < length news.
            id' (news ! k) = u k \<and>
            executablePath (news ! k) = selectedExec (?sel ! k) \<and>
            bottleName (news ! k) = item_bottleName (?sel ! k) \<and>
            (\<forall>n. p_name (manualInfo (?sel ! k)) = Some n \<and> n \<noteq> []
               \<longrightarrow> name (news ! k) = n) \<and>
            (\<forall>r. \<not> truthy (p_name (manualInfo (?sel ! k))) \<and>
                 matchedResult (?sel ! k) = Some r \<and> title r \<noteq> []
               \<longrightarrow> name (news ! k) = title r) \<and>
            (\<not> truthy (p_name (manualInfo (?sel ! k))) \<and>
             \<not> truthy (map_option title (matchedResult (?sel ! k)))
               \<longrightarrow> name (news ! k) = dirName (?sel ! k)) \<and>
            (p_name (manualInfo (?sel ! k)) \<noteq> Some [] \<and>
             map_option title (matchedResult (?sel ! k)) \<noteq> Some []
               \<longrightarrow> name (news ! k) = spec_finalName (?sel ! k)) \<and>
            (truthy (p_backgroundImage (manualInfo (?sel ! k)))
               \<longrightarrow> backgroundImage (news ! k) = p_backgroundImage (manualInfo (?sel ! k))) \<and>
            (\<not> truthy (p_backgroundImage (manualInfo (?sel ! k)))
               \<longrightarrow> backgroundImage (news ! k) = map_option cover (matchedResult (?sel ! k))))"
  proof (intro exI [of _ ?news] conjI allI impI)
    show "handleConfirmBatchImport u (instances w) items = Some (instances w @ ?news)" by (rule s)
    show "mset (instances (step lc stringify parse (ConfirmBatchImport u items saved) w))
           = mset (instances w) + mset ?news" by (rule m)
    show "length ?news = length ?sel" by (rule l)
  qed (simp_all only: f importItem_fields, (auto simp: importItem_name importItem_cover importItem_spec_name)?)
qed

theorem batch_commit_witness:
  "filter selected [item1, item2, item3] \<noteq> [] \<and>
   (\<exists>news. handleConfirmBatchImport demoUUID (instances (world0\<lparr>instances := [instA]\<rparr>))
               [item1, item2, item3]
             = Some (instances (world0\<lparr>instances := [instA]\<rparr>) @ news) \<and>
           length news = 2) \<and>
   filter selected [item2] = [] \<and>
   step codeUnitCompare demoStringify demoParse (ConfirmBatchImport demoUUID [item2] True)
     (world0\<lparr>instances := [instA]\<rparr>) = world0\<lparr>instances := [instA]\<rparr>"
proof -
  have a: "filter selected [item1, item2, item3] = [item1, item3]"
    by (simp add: item1_def item2_def item3_def)
  have b: "filter selected [item2] = []"
    by (simp add: item2_def)
  from a have c: "filter selected [item1, item2, item3] \<noteq> []" by simp
  have d: "length (filter selected [item1, item2, item3]) = 2"
    by (simp add: item1_def item2_def item3_def)
  show ?thesis
    using batch_commit [of "[item1, item2, item3]" demoUUID "world0\<lparr>instances := [instA]\<rparr>"
        codeUnitCompare demoStringify demoParse True]
      batch_commit [of "[item2]" demoUUID "world0\<lparr>instances := [instA]\<rparr>"
        codeUnitCompare demoStringify demoParse True] b c d
    by metis
qed

text \<open>
  The claim as stated fails: with a name override that is present but empty, the \<open>??\<close> rule
  of the claim names the instance with the empty string, while the commit falls through
  to the title of the matched result.
\<close>

theorem batch_commit_counterexample:
  "p_name (manualInfo itemCleared) = Some [] \<and>
   spec_finalName itemCleared = [] \<and>
   map_option (map name) (handleConfirmBatchImport demoUUID [] [itemCleared]) = Some [''CLANNAD'']"
  by (simp add: handleConfirmBatchImport_def importItem_def Let_def itemCleared_def item1_def
      emptyPartial_def spec_finalName_def nullish_def str_or_def resTouch_def enumerate_eq_zip)

section \<open>Batch matching\<close>

lemma item_id_applyOutcome [simp]: "item_id (applyOutcome gk sg exec x) = item_id x"
  by (simp add: applyOutcome_def split: option.splits list.splits)

lemma matchItem_eq:
  "matchItem gk sg t prev
     = map (\<lambda>x. if item_id x = item_id t then applyOutcome gk sg (selectedExec t) x else x) prev"
  by (auto simp: matchItem_def updateBatchItem_def applyOutcome_def fetchGameResults_def
      split: option.splits list.splits)

lemma matchLoop_map:
  "foldl (\<lambda>prev t. matchItem gk sg t prev) st todo
     = map (\<lambda>x. foldl (\<lambda>y t. if item_id y = item_id t
                               then applyOutcome gk sg (selectedExec t) y else y) x todo) st"
proof (induction todo arbitrary: st)
  case Nil
  then show ?case by simp
next
  case (Cons t todo)
  let ?f = "\<lambda>y t. if item_id y = item_id t then applyOutcome gk sg (selectedExec t) y else y"
  have "foldl (\<lambda>prev t. matchItem gk sg t prev) st (t # todo)
      = foldl (\<lambda>prev t. matchItem gk sg t prev) (matchItem gk sg t st) todo" by simp
  also have "\<dots> = map (\<lambda>x. foldl ?f x todo) (matchItem gk sg t st)" by (rule Cons.IH)
  also have "\<dots> = map (\<lambda>x. foldl ?f x (t # todo)) st" by (simp add: matchItem_eq o_def)
  finally show ?case .
qed

lemma loop_untouched:
  "item_id y \<notin> item_id ` set todo \<Longrightarrow>
   foldl (\<lambda>y t. if item_id y = item_id t then applyOutcome gk sg (selectedExec t) y else y) y todo = y"
  by (induction todo arbitrary: y) auto

lemma loop_once:
  assumes "distinct (map item_id todo)" and "t \<in> set todo" and "item_id y = item_id t"
  shows "foldl (\<lambda>y t. if item_id y = item_id t then applyOutcome gk sg (selectedExec t) y else y) y todo
           = applyOutcome gk sg (selectedExec t) y"
  using assms
proof (induction todo arbitrary: y)
  case Nil
  then show ?case by simp
next
  case (Cons a todo)
  show ?case
  proof (cases "a = t")
    case True
    have "item_id (applyOutcome gk sg (selectedExec t) y) \<notin> item_id ` set todo"
      using Cons.prems True by auto
    from loop_untouched [OF this] True Cons.prems(3) show ?thesis by simp
  next
    case False
    with Cons.prems have "t \<in> set todo" "item_id a \<noteq> item_id t" by auto
    with Cons show ?thesis by simp
  qed
qed

lemma itemsToMatch_eligible: "itemsToMatch items = filter eligible items"
  unfolding itemsToMatch_def eligible_def [abs_def] by simp

lemma found_iff_eligible:
  assumes "distinct (map item_id items)" and "x \<in> set items"
  shows "(find (\<lambda>i. item_id i = item_id x) (itemsToMatch items) \<noteq> None) = eligible x"
proof -
  have "inj_on item_id (set items)" using assms(1) by (simp add: distinct_map)
  then have "i = x" if "i \<in> set items" "item_id i = item_id x" for i
    using that assms(2) by (auto dest: inj_onD)
  then show ?thesis using assms(2) by (auto simp: find_None_iff itemsToMatch_eligible)
qed

lemma markMatching_nth:
  assumes "distinct (map item_id items)" and "k < length items"
  shows "markMatching (itemsToMatch items) items ! k
           = (if eligible (items ! k) then (items ! k)\<lparr>status := matching\<rparr> else items ! k)"
  using assms found_iff_eligible [OF assms(1), of "items ! k"]
  by (simp add: markMatching_def)

lemma handleStartBatchMatching_nth:
  assumes "distinct (map item_id items)" and "k < length items"
  shows "handleStartBatchMatching gk sg items ! k
           = (if eligible (items ! k)
              then applyOutcome gk sg (selectedExec (items ! k)) ((items ! k)\<lparr>status := matching\<rparr>)
              else items ! k)"
proof -
  let ?f = "\<lambda>y t. if item_id y = item_id t then applyOutcome gk sg (selectedExec t) y else y"
  let ?m = "markMatching (itemsToMatch items) items"
  have len: "length ?m = length items" by (simp add: markMatching_def)
  have n: "handleStartBatchMatching gk sg items ! k = foldl ?f (?m ! k) (itemsToMatch items)"
    using assms(2) len by (simp add: handleStartBatchMatching_def matchLoop_map)
  have d: "distinct (map item_id (itemsToMatch items))"
    using assms(1) by (simp add: itemsToMatch_eligible distinct_map_filter)
  have x: "items ! k \<in> set items" using assms(2) by simp
  show ?thesis
  proof (cases "eligible (items ! k)")
    case True
    then have t: "items ! k \<in> set (itemsToMatch items)" using x by (simp add: itemsToMatch_eligible)
    have m: "?m ! k = (items ! k)\<lparr>status := matching\<rparr>"
      using markMatching_nth [OF assms] True by simp
    have "foldl ?f (?m ! k) (itemsToMatch items)
        = applyOutcome gk sg (selectedExec (items ! k)) (?m ! k)"
      by (rule loop_once [OF d t]) (simp add: m)
    with n m True show ?thesis by simp
  next
    case False
    have m: "?m ! k = items ! k" using markMatching_nth [OF assms] False by simp
    have "inj_on item_id (set items)" using assms(1) by (simp add: distinct_map)
    then have "i = items ! k" if "i \<in> set items" "item_id i = item_id (items ! k)" for i
      using that x by (auto dest: inj_onD)
    with False have "item_id (items ! k) \<notin> item_id ` set (itemsToMatch items)"
      by (auto simp: itemsToMatch_eligible)
    from loop_untouched [OF this] n m False show ?thesis by simp
  qed
qed

lemma length_handleStartBatchMatching:
  "length (handleStartBatchMatching gk sg items) = length items"
  by (simp add: handleStartBatchMatching_def matchLoop_map markMatching_def)

lemma fetchGameResults_Nil [simp]: "fetchGameResults sg [] = []"
  by (simp add: fetchGameResults_def)

text \<open>
  Claim C8. With item ids unique (they are fresh UUIDs), a matching run works on exactly the
  selected items whose status is pending or unmatched. Each of them is first set to
  matching; then, if keyword extraction rejects, returns no keyword, or the aggregator
  returns no result, it ends unmatched with empty \<open>searchResults\<close>, and if the aggregator
  returns results it ends matched with these as \<open>searchResults\<close> and the first as
  \<open>matchedResult\<close>; no other field of it changes. Every other item (not selected, or
  already matched or matching) is the same before and after.
\<close>

theorem batch_matching:
  assumes "distinct (map item_id items)"
  shows "length (handleStartBatchMatching gk sg items) = length items \<and>
   (\<forall>k < length items.
      (eligible (items ! k) \<longrightarrow>
         markMatching (itemsToMatch items) items ! k = (items ! k)\<lparr>status := matching\<rparr> \<and>
         ((gk (selectedExec (items ! k)) = None \<or> gk (selectedExec (items ! k)) = Some [] \<or>
           (\<exists>kws. gk (selectedExec (items ! k)) = Some kws \<and> fetchGameResults sg kws = []))
            \<longrightarrow> handleStartBatchMatching gk sg items ! k
                  = (items ! k)\<lparr>status := unmatched, searchResults := []\<rparr>) \<and>
         (\<forall>kws r0 rs. gk (selectedExec (items ! k)) = Some kws \<and>
                      fetchGameResults sg kws = r0 # rs
            \<longrightarrow> handleStartBatchMatching gk sg items ! k
                  = (items ! k)\<lparr>status := matched, matchedResult := Some r0,
                                 searchResults := r0 # rs\<rparr>)) \<and>
      (\<not> eligible (items ! k) \<longrightarrow>
         markMatching (itemsToMatch items) items ! k = items ! k \<and>
         handleStartBatchMatching gk sg items ! k = items ! k))"
proof (intro conjI allI impI)
  show "length (handleStartBatchMatching gk sg items) = length items"
    by (rule length_handleStartBatchMatching)
next
  fix k assume k: "k < length items" and e: "eligible (items ! k)"
  show "markMatching (itemsToMatch items) items ! k = (items ! k)\<lparr>status := matching\<rparr>"
    using markMatching_nth [OF assms k] e by simp
  have n: "handleStartBatchMatching gk sg items ! k
      = applyOutcome gk sg (selectedExec (items ! k)) ((items ! k)\<lparr>status := matching\<rparr>)"
    using handleStartBatchMatching_nth [OF assms k] e by simp
  {
    assume "gk (selectedExec (items ! k)) = None \<or> gk (selectedExec (items ! k)) = Some [] \<or>
           (\<exists>kws. gk (selectedExec (items ! k)) = Some kws \<and> fetchGameResults sg kws = [])"
    then show "handleStartBatchMatching gk sg items ! k
                  = (items ! k)\<lparr>status := unmatched, searchResults := []\<rparr>"
      unfolding n by (auto simp: applyOutcome_def)
  }
  {
    fix kws r0 rs
    assume "gk (selectedExec (items ! k)) = Some kws \<and> fetchGameResults sg kws = r0 # rs"
    then show "handleStartBatchMatching gk sg items ! k
                  = (items ! k)\<lparr>status := matched, matchedResult := Some r0,
                                 searchResults := r0 # rs\<rparr>"
      unfolding n by (simp add: applyOutcome_def)
  }
next
  fix k assume k: "k < length items" and e: "\<not> eligible (items ! k)"
  show "markMatching (itemsToMatch items) items ! k = items ! k"
    using markMatching_nth [OF assms k] e by simp
  show "handleStartBatchMatching gk sg items ! k = items ! k"
    using handleStartBatchMatching_nth [OF assms k] e by simp
qed

lemma fetch_demo: "fetchGameResults demoSearch [''clannad'', ''key''] = [resTouch, resKun]"
  by (simp add: fetchGameResults_def demoSearch_def catch_def resTouch_def resKun_def)

theorem batch_matching_witness:
  "distinct (map item_id [item1, item2, item3, item4]) \<and>
   handleStartBatchMatching demoKeywords demoSearch [item1, item2, item3, item4] ! 0 = item1 \<and>
   handleStartBatchMatching demoKeywords demoSearch [item1, item2, item3, item4] ! 1 = item2 \<and>
   handleStartBatchMatching demoKeywords demoSearch [item1, item2, item3, item4] ! 2
     = item3\<lparr>status := unmatched, searchResults := []\<rparr> \<and>
   handleStartBatchMatching demoKeywords demoSearch [item1, item2, item3, item4] ! 3
     = item4\<lparr>status := matched, matchedResult := Some resTouch,
              searchResults := [resTouch, resKun]\<rparr>"
proof -
  let ?items = "[item1, item2, item3, item4]"
  have d: "distinct (map item_id ?items)"
    by (simp add: item1_def item2_def item3_def item4_def)
  have e: "\<not> eligible (?items ! 0)" "\<not> eligible (?items ! 1)" "eligible (?items ! 2)"
    "eligible (?items ! 3)"
    by (simp_all add: eligible_def item1_def item2_def item3_def item4_def)
  have g3: "demoKeywords (selectedExec (?items ! 2)) = None"
    by (simp add: demoKeywords_def item3_def)
  have g4: "demoKeywords (selectedExec (?items ! 3)) = Some [''clannad'', ''key'']"
    by (simp add: demoKeywords_def item4_def item1_def)
  note t = batch_matching [OF d, of demoKeywords demoSearch]
  have k: "(0::nat) < length ?items" "(1::nat) < length ?items" "(2::nat) < length ?items"
    "(3::nat) < length ?items" by simp_all
  from t k(1) e(1) have r0: "handleStartBatchMatching demoKeywords demoSearch ?items ! 0 = ?items ! 0"
    by blast
  from t k(2) e(2) have r1: "handleStartBatchMatching demoKeywords demoSearch ?items ! 1 = ?items ! 1"
    by blast
  from t k(3) e(3) g3 have r2: "handleStartBatchMatching demoKeywords demoSearch ?items ! 2
      = (?items ! 2)\<lparr>status := unmatched, searchResults := []\<rparr>"
    by blast
  from t k(4) e(4) g4 fetch_demo have r3: "handleStartBatchMatching demoKeywords demoSearch ?items ! 3
      = (?items ! 3)\<lparr>status := matched, matchedResult := Some resTouch,
                      searchResults := [resTouch, resKun]\<rparr>"
    by blast
  show ?thesis using d r0 r1 r2 r3 by simp
qed

end
